theory Spec2Isabelle
  imports Main
begin

section \<open>The boundary to the operating system and the Go libraries\<close>

text \<open>
  The tree builder of \<^verbatim>\<open>tree/tree.go\<close> talks to the file system through
  \<^verbatim>\<open>os.Stat\<close>, \<^verbatim>\<open>os.ReadDir\<close>, \<^verbatim>\<open>DirEntry.Info\<close> and
  \<^verbatim>\<open>filepath.EvalSymlinks\<close>, and to the Go libraries through
  \<^verbatim>\<open>filepath.Join\<close>, \<^verbatim>\<open>filepath.Ext\<close>, \<^verbatim>\<open>regexp.MatchString\<close> and
  \<^verbatim>\<open>strings.ToLower\<close>. None of these is code of the repository, so the model takes
  them as the fields of an environment; every theorem below holds for every environment,
  in particular for file systems with symlink cycles or with directories nested without end.
\<close>

datatype error =
    LibError string
  | ErrAccessingPath string error
  | ErrReadingDirectory string error
  | ErrUnsupportedFormat string

text \<open>
  \<^verbatim>\<open>os.FileInfo\<close>, reduced to the four observations the code makes:
  \<^verbatim>\<open>Name()\<close>, \<^verbatim>\<open>IsDir()\<close>, \<^verbatim>\<open>Mode()&os.ModeSymlink != 0\<close> and \<^verbatim>\<open>Size()\<close>.
\<close>

record FileInfo =
  fi_Name :: string
  fi_IsDir :: bool
  fi_ModeSymlink :: bool
  fi_Size :: int

text \<open>An \<^verbatim>\<open>os.DirEntry\<close> is used only through \<^verbatim>\<open>entry.Info()\<close>, which fails or returns the metadata.\<close>

type_synonym DirEntry = "error + FileInfo"

record env =
  osStat :: "string \<Rightarrow> error + FileInfo"
  osReadDir :: "string \<Rightarrow> error + DirEntry list"
  filepathEvalSymlinks :: "string \<Rightarrow> error + string"
  filepathJoin :: "string \<Rightarrow> string \<Rightarrow> string"
  filepathExt :: "string \<Rightarrow> string"
  regexpMatchString :: "string \<Rightarrow> string \<Rightarrow> bool \<times> error option"
  stringsToLower :: "string \<Rightarrow> string"

section \<open>Data model (tree/tree.go, lines 11-36)\<close>

text \<open>\<^verbatim>\<open>type FileType string\<close> with its three constants.\<close>

type_synonym FileType = string

definition Directory :: FileType where
  "Directory = ''directory''"

definition File :: FileType where
  "File = ''file''"

definition Symlink :: FileType where
  "Symlink = ''symlink''"

text \<open>
  \<^verbatim>\<open>Children []*Node\<close>: the builder appends only non-nil children (line 142), so the
  children of the model are nodes. The depth counter and the sizes are Go integers of 64
  bits; the counter starts at 0 and grows by one for each nested call, sizes are only
  copied, so neither is subject to arithmetic that could wrap and both are integers here.
\<close>

datatype Node = Node
  (Name: string)
  (Path: string)
  (Type: FileType)
  (Size: int)
  (Children: "Node list")
  (IsHidden: bool)

record BuildOptions =
  opt_Path :: string
  MaxDepth :: int
  ExcludePaths :: "string list"
  ExcludeTypes :: "string list"
  IncludeFiles :: bool
  FollowLinks :: bool

section \<open>The tree builder (tree/tree.go)\<close>

text \<open>\<^verbatim>\<open>isExcludedPath\<close>, lines 152-160: the first pattern that compiles and matches decides.\<close>

fun isExcludedPath :: "env \<Rightarrow> string \<Rightarrow> string list \<Rightarrow> bool" where
  "isExcludedPath e path [] = False"
| "isExcludedPath e path (pattern # excludePatterns) =
     (case regexpMatchString e pattern path of
        (matched, err) \<Rightarrow>
          if err = None \<and> matched then True
          else isExcludedPath e path excludePatterns)"

text \<open>\<^verbatim>\<open>isExcludedType\<close>, lines 163-171.\<close>

fun excludedExtIn :: "env \<Rightarrow> string \<Rightarrow> string list \<Rightarrow> bool" where
  "excludedExtIn e ext [] = False"
| "excludedExtIn e ext (excludedExt # excludeTypes) =
     (if stringsToLower e excludedExt = ext then True
      else excludedExtIn e ext excludeTypes)"

definition isExcludedType :: "env \<Rightarrow> string \<Rightarrow> string list \<Rightarrow> bool" where
  "isExcludedType e path excludeTypes =
     (let ext = stringsToLower e (filepathExt e path)
      in excludedExtIn e ext excludeTypes)"

text \<open>\<^verbatim>\<open>isHiddenFile\<close>, lines 174-176, with \<^verbatim>\<open>strings.HasPrefix\<close>.\<close>

definition stringsHasPrefix :: "string \<Rightarrow> string \<Rightarrow> bool" where
  "stringsHasPrefix s prefix = (take (length prefix) s = prefix)"

definition isHiddenFile :: "string \<Rightarrow> bool" where
  "isHiddenFile name = stringsHasPrefix name ''.''"

text \<open>
  Lines 65-92 of \<^verbatim>\<open>buildTreeRecursive\<close>: the type and the size of the node. A symlink is
  reclassified only when following is enabled and both \<^verbatim>\<open>filepath.EvalSymlinks\<close> and
  \<^verbatim>\<open>os.Stat\<close> of the target succeed.
\<close>

definition nodeTypeAndSize :: "env \<Rightarrow> string \<Rightarrow> FileInfo \<Rightarrow> BuildOptions \<Rightarrow> FileType \<times> int" where
  "nodeTypeAndSize e currentPath info opts =
     (if fi_IsDir info then (Directory, 0)
      else if fi_ModeSymlink info then
        (if FollowLinks opts then
           (case filepathEvalSymlinks e currentPath of
              Inl err \<Rightarrow> (Symlink, fi_Size info)
            | Inr targetPath \<Rightarrow>
                (case osStat e targetPath of
                   Inl err \<Rightarrow> (Symlink, fi_Size info)
                 | Inr targetInfo \<Rightarrow>
                     if fi_IsDir targetInfo then (Directory, 0)
                     else (File, fi_Size targetInfo)))
         else (Symlink, fi_Size info))
      else (File, fi_Size info))"

text \<open>
  Lines 104-123: the directory listing. The first branch is the source's own (it is never
  taken, because the enclosing test has fixed the type to \<^verbatim>\<open>Directory\<close>); there a failing
  \<^verbatim>\<open>EvalSymlinks\<close> leaves the entries empty and the outer \<^verbatim>\<open>err\<close> nil. The result is
  the error the function returns, already wrapped, or the entries.
\<close>

definition readEntries :: "env \<Rightarrow> string \<Rightarrow> BuildOptions \<Rightarrow> FileType \<Rightarrow> error + DirEntry list" where
  "readEntries e currentPath opts ty =
     (if FollowLinks opts \<and> ty = Symlink then
        (case filepathEvalSymlinks e currentPath of
           Inl err \<Rightarrow> Inr []
         | Inr targetPath \<Rightarrow>
             (case osReadDir e targetPath of
                Inl err \<Rightarrow> Inl (ErrReadingDirectory targetPath err)
              | Inr entries \<Rightarrow> Inr entries))
      else
        (case osReadDir e currentPath of
           Inl err \<Rightarrow> Inl (ErrReadingDirectory currentPath err)
         | Inr entries \<Rightarrow> Inr entries))"

text \<open>
  Lines 125-145: the loop over the entries. \<open>recurse\<close> stands for the recursive call
  \<^verbatim>\<open>buildTreeRecursive(fullPath, entryInfo, opts, currentDepth+1)\<close>; it returns the Go
  pair \<^verbatim>\<open>(*Node, error)\<close>, or nothing when the call does not return. The loop ends with
  the error that makes the function return (\<open>Inl\<close>), or with the children collected.
\<close>

type_synonym result = "Node option \<times> error option"

fun processEntries ::
  "(string \<Rightarrow> FileInfo \<Rightarrow> result option) \<Rightarrow> env \<Rightarrow> BuildOptions \<Rightarrow> string \<Rightarrow>
   DirEntry list \<Rightarrow> Node list \<Rightarrow> (error + Node list) option" where
  "processEntries recurse e opts currentPath [] children = Some (Inr children)"
| "processEntries recurse e opts currentPath (entry # entries) children =
     (case entry of
        Inl err \<Rightarrow> processEntries recurse e opts currentPath entries children
      | Inr entryInfo \<Rightarrow>
          (let fullPath = filepathJoin e currentPath (fi_Name entryInfo) in
           if \<not> IncludeFiles opts \<and> \<not> fi_IsDir entryInfo
           then processEntries recurse e opts currentPath entries children
           else
             (case recurse fullPath entryInfo of
                None \<Rightarrow> None
              | Some (child, Some err) \<Rightarrow> Some (Inl err)
              | Some (None, None) \<Rightarrow> processEntries recurse e opts currentPath entries children
              | Some (Some c, None) \<Rightarrow>
                  processEntries recurse e opts currentPath entries (children @ [c]))))"

text \<open>
  \<^verbatim>\<open>buildTreeRecursive\<close>, lines 49-149. The first argument bounds the number of nested
  calls: the source recurses as deep as the file system goes, and a file system may go on
  without end (a symlink cycle that is followed), so the model returns \<open>None\<close> when the
  bound is used up and the Go pair \<^verbatim>\<open>(*Node, error)\<close> otherwise.
\<close>

fun buildTreeRecursive ::
  "nat \<Rightarrow> env \<Rightarrow> string \<Rightarrow> FileInfo \<Rightarrow> BuildOptions \<Rightarrow> int \<Rightarrow> result option" where
  "buildTreeRecursive 0 e currentPath info opts currentDepth = None"
| "buildTreeRecursive (Suc fuel) e currentPath info opts currentDepth =
     (if MaxDepth opts \<noteq> -1 \<and> currentDepth > MaxDepth opts then Some (None, None)
      else if isExcludedPath e currentPath (ExcludePaths opts) then Some (None, None)
      else
        (case nodeTypeAndSize e currentPath info opts of
           (ty, sz) \<Rightarrow>
             if ty = File \<and> isExcludedType e currentPath (ExcludeTypes opts)
             then Some (None, None)
             else
               (let hidden = isHiddenFile (fi_Name info) in
                if ty = Directory then
                  (case readEntries e currentPath opts ty of
                     Inl err \<Rightarrow> Some (None, Some err)
                   | Inr entries \<Rightarrow>
                       (case processEntries
                               (\<lambda>fullPath entryInfo.
                                  buildTreeRecursive fuel e fullPath entryInfo opts (currentDepth + 1))
                               e opts currentPath entries [] of
                          None \<Rightarrow> None
                        | Some (Inl err) \<Rightarrow> Some (None, Some err)
                        | Some (Inr children) \<Rightarrow>
                            Some (Some (Node (fi_Name info) currentPath ty sz children hidden), None)))
                else Some (Some (Node (fi_Name info) currentPath ty sz [] hidden), None))))"

text \<open>\<^verbatim>\<open>BuildTree\<close>, lines 39-46.\<close>

definition BuildTree :: "nat \<Rightarrow> env \<Rightarrow> BuildOptions \<Rightarrow> result option" where
  "BuildTree fuel e opts =
     (case osStat e (opt_Path opts) of
        Inl err \<Rightarrow> Some (None, Some (ErrAccessingPath (opt_Path opts) err))
      | Inr info \<Rightarrow> buildTreeRecursive fuel e (opt_Path opts) info opts 0)"

section \<open>The formatter (formatter/formatter.go, configs/cfg.go)\<close>

text \<open>\<^verbatim>\<open>type OutputFormat string\<close> and its constants (cfg.go, lines 9-16).\<close>

type_synonym OutputFormat = string

definition JSON :: OutputFormat where
  "JSON = ''json''"

definition YAML :: OutputFormat where
  "YAML = ''yaml''"

definition XML :: OutputFormat where
  "XML = ''xml''"

definition TXT :: OutputFormat where
  "TXT = ''txt''"

record FormatCfg =
  fmt_Type :: OutputFormat
  OutputPath :: string
  Indent :: int
  ExcludeNodeFields :: "string list"

record Config =
  cfg_Path :: string
  cfg_ExcludeTypes :: "string list"
  cfg_ExcludePaths :: "string list"
  cfg_IncludeFiles :: bool
  cfg_MaxDepth :: int
  cfg_FollowLinks :: bool
  cfg_Format :: FormatCfg

text \<open>\<^verbatim>\<open>filteredNode\<close>, lines 31-38; an excluded field keeps its zero value.\<close>

datatype filteredNode = filteredNode
  (f_Name: string)
  (f_Path: string)
  (f_Type: FileType)
  (f_Size: int)
  (f_Children: "filteredNode list")
  (f_IsHidden: bool)

text \<open>\<^verbatim>\<open>contains\<close>, lines 80-87.\<close>

fun contains :: "string list \<Rightarrow> string \<Rightarrow> bool" where
  "contains [] item = False"
| "contains (s # slice) item = (if s = item then True else contains slice item)"

text \<open>\<^verbatim>\<open>createFilteredNode\<close>, lines 41-77; the argument is a pointer, \<open>None\<close> is nil.\<close>

fun createFilteredNode :: "Node option \<Rightarrow> string list \<Rightarrow> filteredNode option" where
  "createFilteredNode None excludeFields = None"
| "createFilteredNode (Some (Node name path ty sz children hidden)) excludeFields =
     Some (filteredNode
       (if \<not> contains excludeFields ''name'' then name else [])
       (if \<not> contains excludeFields ''path'' then path else [])
       (if \<not> contains excludeFields ''type'' then ty else [])
       (if \<not> contains excludeFields ''size'' then sz else 0)
       (if \<not> contains excludeFields ''children''
        then concat (map (\<lambda>child.
               case createFilteredNode (Some child) excludeFields of
                 None \<Rightarrow> []
               | Some filteredChild \<Rightarrow> [filteredChild]) children)
        else [])
       (if \<not> contains excludeFields ''is_hidden'' then hidden else False))"

text \<open>
  The value handed to the marshalling libraries is an \<^verbatim>\<open>interface{}\<close> that holds a
  \<^verbatim>\<open>*tree.Node\<close> or a \<^verbatim>\<open>*filteredNode\<close>. \<^verbatim>\<open>encoding/json\<close>, \<^verbatim>\<open>encoding/xml\<close> and
  \<^verbatim>\<open>yaml.v2\<close> are libraries, taken as parameters.
\<close>

datatype data = NodeData "Node option" | FilteredData "filteredNode option"

record marshalers =
  jsonMarshal :: "data \<Rightarrow> string \<times> error option"
  jsonMarshalIndent :: "data \<Rightarrow> string \<Rightarrow> string \<Rightarrow> string \<times> error option"
  yamlMarshal :: "data \<Rightarrow> string \<times> error option"
  xmlMarshalIndent :: "data \<Rightarrow> string \<Rightarrow> string \<Rightarrow> string \<times> error option"

text \<open>A call either returns or panics.\<close>

datatype 'a outcome = Returned 'a | Panicked

text \<open>\<^verbatim>\<open>strings.Repeat\<close> (it panics on a negative count), \<^verbatim>\<open>strings.Join\<close>, and \<^verbatim>\<open>%d\<close>.\<close>

definition stringsRepeat :: "string \<Rightarrow> int \<Rightarrow> string outcome" where
  "stringsRepeat s count =
     (if count < 0 then Panicked else Returned (concat (replicate (nat count) s)))"

fun stringsJoin :: "string list \<Rightarrow> string \<Rightarrow> string" where
  "stringsJoin [] sep = []"
| "stringsJoin [s] sep = s"
| "stringsJoin (s # t # rest) sep = s @ sep @ stringsJoin (t # rest) sep"

fun showNat :: "nat \<Rightarrow> string" where
  "showNat n =
     (if n < 10 then [char_of (48 + n)]
      else showNat (n div 10) @ [char_of (48 + n mod 10)])"

declare showNat.simps [simp del]

definition sprintfD :: "int \<Rightarrow> string" where
  "sprintfD i = (if i < 0 then CHR ''-'' # showNat (nat (- i)) else showNat (nat i))"

text \<open>\<^verbatim>\<open>formatJSON\<close>, \<^verbatim>\<open>formatYAML\<close>, \<^verbatim>\<open>formatXML\<close>, lines 90-126.\<close>

definition filterData :: "Node option \<Rightarrow> FormatCfg \<Rightarrow> data" where
  "filterData node cfg =
     (if length (ExcludeNodeFields cfg) > 0
      then FilteredData (createFilteredNode node (ExcludeNodeFields cfg))
      else NodeData node)"

definition formatJSON :: "marshalers \<Rightarrow> Node option \<Rightarrow> FormatCfg \<Rightarrow> (string \<times> error option) outcome" where
  "formatJSON m node cfg =
     (let d = filterData node cfg in
      if Indent cfg > 0 then
        (case stringsRepeat '' '' (Indent cfg) of
           Panicked \<Rightarrow> Panicked
         | Returned ind \<Rightarrow> Returned (jsonMarshalIndent m d [] ind))
      else Returned (jsonMarshal m d))"

definition formatYAML :: "marshalers \<Rightarrow> Node option \<Rightarrow> FormatCfg \<Rightarrow> (string \<times> error option) outcome" where
  "formatYAML m node cfg = Returned (yamlMarshal m (filterData node cfg))"

definition formatXML :: "marshalers \<Rightarrow> Node option \<Rightarrow> FormatCfg \<Rightarrow> (string \<times> error option) outcome" where
  "formatXML m node cfg = Returned (xmlMarshalIndent m (filterData node cfg) [] ''  '')"

text \<open>
  \<^verbatim>\<open>formatTXT\<close>, lines 129-170. The three prefixes are the bytes of the string literals of
  lines 137, 139 and 141. The function reads \<^verbatim>\<open>node.Type\<close> at line 138 with no test of
  the pointer, so a nil node is a nil-pointer dereference, which panics.
\<close>

definition prefixDirectory :: string where
  "prefixDirectory = map char_of [0xC3, 0xB0, 0xC5, 0xB8, 0xE2, 0x80, 0x9C, 0x20 :: nat]"

definition prefixFile :: string where
  "prefixFile = map char_of [0xC3, 0xB0, 0xC5, 0xB8, 0xE2, 0x80, 0x9C, 0xE2, 0x80, 0x9E, 0x20 :: nat]"

definition prefixSymlink :: string where
  "prefixSymlink = map char_of [0xC3, 0xB0, 0xC5, 0xB8, 0xE2, 0x80, 0x9D, 0xE2, 0x80, 0x94, 0x20 :: nat]"

fun writeAll :: "string \<Rightarrow> string outcome list \<Rightarrow> string outcome" where
  "writeAll acc [] = Returned acc"
| "writeAll acc (Panicked # rest) = Panicked"
| "writeAll acc (Returned s # rest) = writeAll (acc @ s) rest"

fun formatTXT :: "Node option \<Rightarrow> int \<Rightarrow> FormatCfg \<Rightarrow> string outcome" where
  "formatTXT None level cfg =
     (case stringsRepeat ''  '' level of
        Panicked \<Rightarrow> Panicked
      | Returned indent \<Rightarrow> Panicked)"
| "formatTXT (Some (Node name path ty sz children hidden)) level cfg =
     (case stringsRepeat ''  '' level of
        Panicked \<Rightarrow> Panicked
      | Returned indent \<Rightarrow>
          (let prefix = (if ty = File then prefixFile
                         else if ty = Symlink then prefixSymlink
                         else prefixDirectory);
               parts1 = [prefix];
               parts2 = (if \<not> contains (ExcludeNodeFields cfg) ''name''
                         then parts1 @ [name] else parts1);
               parts3 = (if \<not> contains (ExcludeNodeFields cfg) ''size'' \<and> ty = File \<and> sz > 0
                         then parts2 @ [''('' @ sprintfD sz @ '' bytes)''] else parts2);
               parts4 = (if \<not> contains (ExcludeNodeFields cfg) ''is_hidden'' \<and> hidden
                         then parts3 @ [''[hidden]''] else parts3);
               line = indent @ stringsJoin parts4 '' '' @ [char_of (10 :: nat)]
           in if \<not> contains (ExcludeNodeFields cfg) ''children''
              then writeAll line (map (\<lambda>child. formatTXT (Some child) (level + 1) cfg) children)
              else Returned line))"

text \<open>\<^verbatim>\<open>Format\<close>, lines 15-28; a nil byte slice is the empty string.\<close>

definition Format :: "marshalers \<Rightarrow> Node option \<Rightarrow> FormatCfg \<Rightarrow> (string \<times> error option) outcome" where
  "Format m tree cfg =
     (if fmt_Type cfg = JSON then formatJSON m tree cfg
      else if fmt_Type cfg = YAML then formatYAML m tree cfg
      else if fmt_Type cfg = XML then formatXML m tree cfg
      else if fmt_Type cfg = TXT then
        (case formatTXT tree 0 cfg of
           Panicked \<Rightarrow> Panicked
         | Returned bytes \<Rightarrow> Returned (bytes, None))
      else Returned ([], Some (ErrUnsupportedFormat (fmt_Type cfg))))"

section \<open>The entry points (dirtree/dirtree.go, cmd/main.go)\<close>

text \<open>The \<^verbatim>\<open>tree.BuildOptions\<close> literal of \<^verbatim>\<open>Generate\<close>, dirtree.go lines 16-22.\<close>

definition generateBuildOptions :: "Config \<Rightarrow> BuildOptions" where
  "generateBuildOptions cfg =
     \<lparr> opt_Path = cfg_Path cfg,
       MaxDepth = cfg_MaxDepth cfg,
       ExcludePaths = cfg_ExcludePaths cfg,
       ExcludeTypes = cfg_ExcludePaths cfg,
       IncludeFiles = cfg_IncludeFiles cfg,
       FollowLinks = cfg_FollowLinks cfg \<rparr>"

text \<open>The \<^verbatim>\<open>tree.BuildOptions\<close> literal of \<^verbatim>\<open>main\<close>, main.go lines 27-33.\<close>

definition mainBuildOptions :: "Config \<Rightarrow> BuildOptions" where
  "mainBuildOptions cfg =
     \<lparr> opt_Path = cfg_Path cfg,
       MaxDepth = cfg_MaxDepth cfg,
       ExcludePaths = cfg_ExcludePaths cfg,
       ExcludeTypes = cfg_ExcludePaths cfg,
       IncludeFiles = cfg_IncludeFiles cfg,
       FollowLinks = cfg_FollowLinks cfg \<rparr>"

text \<open>\<^verbatim>\<open>Generate\<close>, dirtree.go lines 14-27.\<close>

definition Generate ::
  "nat \<Rightarrow> env \<Rightarrow> marshalers \<Rightarrow> Config \<Rightarrow> (string \<times> error option) outcome option" where
  "Generate fuel e m cfg =
     (case BuildTree fuel e (generateBuildOptions cfg) of
        None \<Rightarrow> None
      | Some (root, Some err) \<Rightarrow> Some (Returned ([], Some err))
      | Some (root, None) \<Rightarrow> Some (Format m root (cfg_Format cfg)))"

text \<open>
  \<^verbatim>\<open>main\<close>, main.go lines 26-42, from the validated configuration to the formatted
  output; \<^verbatim>\<open>log.Fatalf\<close> ends the process with the error.
\<close>

definition mainRun ::
  "nat \<Rightarrow> env \<Rightarrow> marshalers \<Rightarrow> Config \<Rightarrow> (string \<times> error option) outcome option" where
  "mainRun fuel e m cfg =
     (case BuildTree fuel e (mainBuildOptions cfg) of
        None \<Rightarrow> None
      | Some (root, Some err) \<Rightarrow> Some (Returned ([], Some err))
      | Some (root, None) \<Rightarrow> Some (Format m root (cfg_Format cfg)))"

section \<open>Observations on result trees\<close>

text \<open>The nodes of a tree at a given depth below its root (the root is at depth 0).\<close>

fun nodesAtDepth :: "Node \<Rightarrow> nat \<Rightarrow> Node list" where
  "nodesAtDepth n 0 = [n]"
| "nodesAtDepth n (Suc j) = concat (map (\<lambda>c. nodesAtDepth c j) (Children n))"

text \<open>A tree of height at most \<open>h\<close>: no node below depth \<open>h\<close>.\<close>

fun heightAtMost :: "nat \<Rightarrow> Node \<Rightarrow> bool" where
  "heightAtMost 0 n = (Children n = [])"
| "heightAtMost (Suc h) n = list_all (heightAtMost h) (Children n)"


text \<open>
  What the walk is expected to keep of a directory listing (steps 2, 5 and 7 of the
  traversal): the entries whose metadata can be read, that the \<^verbatim>\<open>IncludeFiles\<close> test does
  not skip, whose full path matches no exclusion pattern, and that are not files with an
  excluded extension; each with its full path, in the order of the listing.
\<close>

definition keptEntries :: "env \<Rightarrow> BuildOptions \<Rightarrow> string \<Rightarrow> DirEntry list \<Rightarrow> (string \<times> FileInfo) list" where
  "keptEntries e opts currentPath entries =
     concat (map (\<lambda>entry.
       case entry of
         Inl err \<Rightarrow> []
       | Inr entryInfo \<Rightarrow>
           (let fullPath = filepathJoin e currentPath (fi_Name entryInfo) in
            if \<not> IncludeFiles opts \<and> \<not> fi_IsDir entryInfo then []
            else if isExcludedPath e fullPath (ExcludePaths opts) then []
            else if fst (nodeTypeAndSize e fullPath entryInfo opts) = File \<and>
                    isExcludedType e fullPath (ExcludeTypes opts) then []
            else [(fullPath, entryInfo)])) entries)"

text \<open>The node of an entry, without children: name, path, type, size and hidden flag.\<close>

definition entryNode :: "env \<Rightarrow> BuildOptions \<Rightarrow> string \<times> FileInfo \<Rightarrow> Node" where
  "entryNode e opts pi =
     (case pi of (fullPath, entryInfo) \<Rightarrow>
        Node (fi_Name entryInfo) fullPath
          (fst (nodeTypeAndSize e fullPath entryInfo opts))
          (snd (nodeTypeAndSize e fullPath entryInfo opts))
          [] (isHiddenFile (fi_Name entryInfo)))"

definition stripChildren :: "Node \<Rightarrow> Node" where
  "stripChildren n = Node (Name n) (Path n) (Type n) (Size n) [] (IsHidden n)"

text \<open>
  A node is populated when it has one child for each kept entry of its directory, in the
  order of the listing, and none when it is not a directory.
\<close>

definition populated :: "env \<Rightarrow> BuildOptions \<Rightarrow> Node \<Rightarrow> bool" where
  "populated e opts n =
     (if Type n = Directory then
        (case osReadDir e (Path n) of
           Inl err \<Rightarrow> False
         | Inr entries \<Rightarrow>
             map stripChildren (Children n) =
               map (entryNode e opts) (keptEntries e opts (Path n) entries))
      else Children n = [])"

text \<open>A property that holds of every node of a tree.\<close>

fun allNodes :: "(Node \<Rightarrow> bool) \<Rightarrow> Node \<Rightarrow> bool" where
  "allNodes P (Node name path ty sz children hidden) =
     (P (Node name path ty sz children hidden) \<and> list_all (allNodes P) children)"

section \<open>A small file system for the examples\<close>

text \<open>
  Stand-ins for the libraries on the inputs of the examples: \<^verbatim>\<open>filepath.Ext\<close> as the Go
  library computes it on Unix (the suffix from the last dot of the last path element),
  \<^verbatim>\<open>strings.ToLower\<close> on ASCII letters, \<^verbatim>\<open>filepath.Join\<close> on two clean non-empty
  paths, and \<^verbatim>\<open>regexp.MatchString\<close> on the two kinds of pattern the examples use: a
  pattern with an unclosed bracket does not compile, and a pattern without
  metacharacters matches the strings it occurs in.
\<close>

fun extScan :: "string \<Rightarrow> string \<Rightarrow> string" where
  "extScan [] suffix = []"
| "extScan (c # front) suffix =
     (if c = CHR ''/'' then []
      else if c = CHR ''.'' then c # suffix
      else extScan front (c # suffix))"

definition unixExt :: "string \<Rightarrow> string" where
  "unixExt path = extScan (rev path) []"

definition asciiToLower :: "string \<Rightarrow> string" where
  "asciiToLower s =
     map (\<lambda>c. if 65 \<le> (of_char c :: nat) \<and> (of_char c :: nat) \<le> 90
               then char_of ((of_char c :: nat) + 32) else c) s"

definition unixJoin :: "string \<Rightarrow> string \<Rightarrow> string" where
  "unixJoin dir name = dir @ ''/'' @ name"

fun occursIn :: "string \<Rightarrow> string \<Rightarrow> bool" where
  "occursIn pattern [] = (pattern = [])"
| "occursIn pattern (c # s) = (take (length pattern) (c # s) = pattern \<or> occursIn pattern s)"

definition literalMatchString :: "string \<Rightarrow> string \<Rightarrow> bool \<times> error option" where
  "literalMatchString pattern s =
     (if pattern = ''[''
      then (False, Some (LibError ''error parsing regexp: missing closing ]''))
      else (occursIn pattern s, None))"

definition fileInfo :: "string \<Rightarrow> int \<Rightarrow> FileInfo" where
  "fileInfo name sz = \<lparr> fi_Name = name, fi_IsDir = False, fi_ModeSymlink = False, fi_Size = sz \<rparr>"

definition dirInfo :: "string \<Rightarrow> FileInfo" where
  "dirInfo name = \<lparr> fi_Name = name, fi_IsDir = True, fi_ModeSymlink = False, fi_Size = 4096 \<rparr>"

definition linkInfo :: "string \<Rightarrow> int \<Rightarrow> FileInfo" where
  "linkInfo name sz = \<lparr> fi_Name = name, fi_IsDir = False, fi_ModeSymlink = True, fi_Size = sz \<rparr>"

text \<open>
  The directory \<^verbatim>\<open>/r\<close> holds the file \<^verbatim>\<open>a.txt\<close>, the file \<^verbatim>\<open>x.go\<close>, the directory
  \<^verbatim>\<open>sub\<close>, the symlink \<^verbatim>\<open>link\<close> to \<^verbatim>\<open>/r/x.go\<close> and the symlink \<^verbatim>\<open>dlink\<close> to
  \<^verbatim>\<open>/r/sub\<close>; \<^verbatim>\<open>sub\<close> holds the file \<^verbatim>\<open>c.go\<close> and the directory \<^verbatim>\<open>deep\<close>, which holds
  the file \<^verbatim>\<open>d.txt\<close>.
\<close>

definition demoStat :: "string \<Rightarrow> error + FileInfo" where
  "demoStat p =
     (if p = ''/r'' then Inr (dirInfo ''r'')
      else if p = ''/r/sub'' then Inr (dirInfo ''sub'')
      else if p = ''/r/x.go'' then Inr (fileInfo ''x.go'' 5)
      else if p = ''/r/a.txt'' then Inr (fileInfo ''a.txt'' 10)
      else Inl (LibError ''no such file or directory''))"

definition demoReadDir :: "string \<Rightarrow> error + DirEntry list" where
  "demoReadDir p =
     (if p = ''/r'' then
        Inr [Inr (fileInfo ''a.txt'' 10), Inr (fileInfo ''x.go'' 5), Inr (dirInfo ''sub''),
             Inr (linkInfo ''link'' 7), Inr (linkInfo ''dlink'' 6)]
      else if p = ''/r/sub'' \<or> p = ''/r/dlink'' then
        Inr [Inr (fileInfo ''c.go'' 3), Inr (dirInfo ''deep'')]
      else if p = ''/r/sub/deep'' \<or> p = ''/r/dlink/deep'' then
        Inr [Inr (fileInfo ''d.txt'' 1)]
      else Inl (LibError ''not a directory''))"

definition demoEvalSymlinks :: "string \<Rightarrow> error + string" where
  "demoEvalSymlinks p =
     (if p = ''/r/link'' then Inr ''/r/x.go''
      else if p = ''/r/dlink'' then Inr ''/r/sub''
      else Inr p)"

definition demoEnv :: env where
  "demoEnv =
     \<lparr> osStat = demoStat,
       osReadDir = demoReadDir,
       filepathEvalSymlinks = demoEvalSymlinks,
       filepathJoin = unixJoin,
       filepathExt = unixExt,
       regexpMatchString = literalMatchString,
       stringsToLower = asciiToLower \<rparr>"

text \<open>The same file system with the directory \<^verbatim>\<open>/r/sub\<close> unreadable.\<close>

definition lockedEnv :: env where
  "lockedEnv =
     demoEnv \<lparr> osReadDir := (\<lambda>p. if p = ''/r/sub''
                                 then Inl (LibError ''permission denied'')
                                 else demoReadDir p) \<rparr>"

text \<open>
  A symlink cycle: the directory \<^verbatim>\<open>/c\<close> holds the symlink \<^verbatim>\<open>loop\<close> to \<^verbatim>\<open>/c\<close> itself,
  so every path \<^verbatim>\<open>/c/loop/.../loop\<close> resolves to \<^verbatim>\<open>/c\<close> and lists the same entry.
\<close>

definition cycleEnv :: env where
  "cycleEnv =
     \<lparr> osStat = (\<lambda>p. Inr (dirInfo ''c'')),
       osReadDir = (\<lambda>p. Inr [Inr (linkInfo ''loop'' 2)]),
       filepathEvalSymlinks = (\<lambda>p. Inr ''/c''),
       filepathJoin = unixJoin,
       filepathExt = unixExt,
       regexpMatchString = literalMatchString,
       stringsToLower = asciiToLower \<rparr>"

definition demoOpts :: BuildOptions where
  "demoOpts =
     \<lparr> opt_Path = ''/r'', MaxDepth = 1, ExcludePaths = [], ExcludeTypes = [],
       IncludeFiles = True, FollowLinks = False \<rparr>"

text \<open>The tree the builder returns for \<^verbatim>\<open>/r\<close> with maximum depth 1.\<close>

definition demoTree :: Node where
  "demoTree =
     Node ''r'' ''/r'' Directory 0
       [Node ''a.txt'' ''/r/a.txt'' File 10 [] False,
        Node ''x.go'' ''/r/x.go'' File 5 [] False,
        Node ''sub'' ''/r/sub'' Directory 0 [] False,
        Node ''link'' ''/r/link'' Symlink 7 [] False,
        Node ''dlink'' ''/r/dlink'' Symlink 6 [] False]
       False"

definition cycleOpts :: BuildOptions where
  "cycleOpts =
     \<lparr> opt_Path = ''/c'', MaxDepth = 2, ExcludePaths = [], ExcludeTypes = [],
       IncludeFiles = True, FollowLinks = True \<rparr>"

text \<open>The tree the builder returns for the cycle with maximum depth 2.\<close>

definition cycleTree :: Node where
  "cycleTree =
     Node ''c'' ''/c'' Directory 0
       [Node ''loop'' ''/c/loop'' Directory 0
          [Node ''loop'' ''/c/loop/loop'' Directory 0 [] False] False]
       False"

text \<open>Options for the examples: excluded extensions, followed links, excluded roots.\<close>

definition goOpts :: BuildOptions where
  "goOpts = demoOpts \<lparr> ExcludeTypes := [''.go''] \<rparr>"

definition linkOpts :: BuildOptions where
  "linkOpts = demoOpts \<lparr> ExcludeTypes := [''.GO''], FollowLinks := True \<rparr>"

definition linkTree :: Node where
  "linkTree =
     Node ''r'' ''/r'' Directory 0
       [Node ''a.txt'' ''/r/a.txt'' File 10 [] False,
        Node ''sub'' ''/r/sub'' Directory 0 [] False,
        Node ''link'' ''/r/link'' File 5 [] False,
        Node ''dlink'' ''/r/dlink'' Directory 0 [] False]
       False"

definition rootFileOpts :: BuildOptions where
  "rootFileOpts = demoOpts \<lparr> opt_Path := ''/r/x.go'', ExcludeTypes := [''.go''] \<rparr>"

definition rootPathOpts :: BuildOptions where
  "rootPathOpts = demoOpts \<lparr> ExcludePaths := [''r''] \<rparr>"




section \<open>Calls that the traversal reaches\<close>

text \<open>
  \<open>reached e opts fuel p info d f\<close>: the build started by \<^verbatim>\<open>BuildTree\<close> with nesting
  bound \<open>fuel\<close> calls the recursive builder for the entry \<open>p\<close> at depth \<open>d\<close> with
  remaining bound \<open>f\<close>. The root is reached when its path stats; an entry of a directory
  is reached when the directory is reached and listed, the entries before it in the
  listing were processed without error, and the \<^verbatim>\<open>IncludeFiles\<close> test does not skip it.
\<close>

inductive reached ::
  "env \<Rightarrow> BuildOptions \<Rightarrow> nat \<Rightarrow> string \<Rightarrow> FileInfo \<Rightarrow> int \<Rightarrow> nat \<Rightarrow> bool"
  for e :: env and opts :: BuildOptions and fuel :: nat where
  root: "osStat e (opt_Path opts) = Inr info \<Longrightarrow> reached e opts fuel (opt_Path opts) info 0 fuel"
| child:
  "reached e opts fuel p info d (Suc f) \<Longrightarrow>
   \<not> (MaxDepth opts \<noteq> -1 \<and> d > MaxDepth opts) \<Longrightarrow>
   \<not> isExcludedPath e p (ExcludePaths opts) \<Longrightarrow>
   fst (nodeTypeAndSize e p info opts) = Directory \<Longrightarrow>
   osReadDir e p = Inr (earlier @ Inr entryInfo # later) \<Longrightarrow>
   processEntries (\<lambda>fp ei. buildTreeRecursive f e fp ei opts (d + 1)) e opts p earlier [] = Some (Inr cs) \<Longrightarrow>
   IncludeFiles opts \<or> fi_IsDir entryInfo \<Longrightarrow>
   reached e opts fuel (filepathJoin e p (fi_Name entryInfo)) entryInfo (d + 1) f"

text \<open>A configuration of the text format whose root path is excluded.\<close>

definition txtConfig :: Config where
  "txtConfig =
     \<lparr> cfg_Path = ''/r'', cfg_ExcludeTypes = [], cfg_ExcludePaths = [''r''],
       cfg_IncludeFiles = True, cfg_MaxDepth = 1, cfg_FollowLinks = False,
       cfg_Format = \<lparr> fmt_Type = TXT, OutputPath = [], Indent = 2, ExcludeNodeFields = [] \<rparr> \<rparr>"

text \<open>A configuration that asks for the exclusion of the extension \<^verbatim>\<open>.go\<close>.\<close>

definition goConfig :: Config where
  "goConfig =
     \<lparr> cfg_Path = ''/r'', cfg_ExcludeTypes = [''.go''], cfg_ExcludePaths = [],
       cfg_IncludeFiles = True, cfg_MaxDepth = 1, cfg_FollowLinks = False,
       cfg_Format = \<lparr> fmt_Type = JSON, OutputPath = [], Indent = 2, ExcludeNodeFields = [] \<rparr> \<rparr>"

text \<open>
  A configuration whose path pattern \<^verbatim>\<open>.GO\<close> matches no path of \<^verbatim>\<open>/r\<close> as a regular
  expression and equals the extension of \<^verbatim>\<open>x.go\<close> in lower case, and whose configured
  extension is \<^verbatim>\<open>.txt\<close>; the tree both entry points build from it; and a stand-in for
  the marshalling libraries, which the text format does not call.
\<close>

definition upperConfig :: Config where
  "upperConfig =
     \<lparr> cfg_Path = ''/r'', cfg_ExcludeTypes = [''.txt''], cfg_ExcludePaths = [''.GO''],
       cfg_IncludeFiles = True, cfg_MaxDepth = 1, cfg_FollowLinks = False,
       cfg_Format = \<lparr> fmt_Type = TXT, OutputPath = [], Indent = 2, ExcludeNodeFields = [] \<rparr> \<rparr>"

definition upperTree :: Node where
  "upperTree =
     Node ''r'' ''/r'' Directory 0
       [Node ''a.txt'' ''/r/a.txt'' File 10 [] False,
        Node ''sub'' ''/r/sub'' Directory 0 [] False,
        Node ''link'' ''/r/link'' Symlink 7 [] False,
        Node ''dlink'' ''/r/dlink'' Symlink 6 [] False]
       False"

definition nullMarshalers :: marshalers where
  "nullMarshalers =
     \<lparr> jsonMarshal = (\<lambda>d. ([], None)),
       jsonMarshalIndent = (\<lambda>d prefix indent. ([], None)),
       yamlMarshal = (\<lambda>d. ([], None)),
       xmlMarshalIndent = (\<lambda>d prefix indent. ([], None)) \<rparr>"

text \<open>The listing of \<^verbatim>\<open>/r\<close>.\<close>

definition demoListing :: "DirEntry list" where
  "demoListing =
     [Inr (fileInfo ''a.txt'' 10), Inr (fileInfo ''x.go'' 5), Inr (dirInfo ''sub''),
      Inr (linkInfo ''link'' 7), Inr (linkInfo ''dlink'' 6)]"

section \<open>Basic facts\<close>

lemma FileType_distinct [simp]:
  "Directory \<noteq> File" "File \<noteq> Directory"
  "Directory \<noteq> Symlink" "Symlink \<noteq> Directory"
  "File \<noteq> Symlink" "Symlink \<noteq> File"
  by (simp_all add: Directory_def File_def Symlink_def)

lemma demo_match_bad:
  "regexpMatchString demoEnv ''['' ''/r/sub'' =
     (False, Some (LibError ''error parsing regexp: missing closing ]''))"
  by (simp add: demoEnv_def literalMatchString_def)

lemma demo_match_sub: "regexpMatchString demoEnv ''sub'' ''/r/sub'' = (True, None)"
  by (simp add: demoEnv_def literalMatchString_def)

section \<open>Path exclusion fails open on invalid patterns\<close>

text \<open>
  Claim C8. For every path and every list of exclusion patterns, \<^verbatim>\<open>isExcludedPath\<close>
  returns true exactly when some pattern of the list both compiles (\<^verbatim>\<open>regexp.MatchString\<close>
  returns a nil error) and matches the path. A pattern that does not compile is a
  non-match: it can be dropped from the list without changing the answer, and the function
  returns a boolean, so no error leaves it.
\<close>

theorem isExcludedPath_iff:
  "(isExcludedPath e path excludePatterns \<longleftrightarrow>
      (\<exists>pattern \<in> set excludePatterns.
          snd (regexpMatchString e pattern path) = None \<and>
          fst (regexpMatchString e pattern path))) \<and>
   (snd (regexpMatchString e bad path) \<noteq> None \<longrightarrow>
      isExcludedPath e path (bad # excludePatterns) = isExcludedPath e path excludePatterns)"
proof
  show "isExcludedPath e path excludePatterns \<longleftrightarrow>
      (\<exists>pattern \<in> set excludePatterns.
          snd (regexpMatchString e pattern path) = None \<and>
          fst (regexpMatchString e pattern path))"
    by (induction excludePatterns) (auto split: prod.splits)
  show "snd (regexpMatchString e bad path) \<noteq> None \<longrightarrow>
      isExcludedPath e path (bad # excludePatterns) = isExcludedPath e path excludePatterns"
    by (auto split: prod.splits)
qed

theorem isExcludedPath_iff_witness:
  "isExcludedPath demoEnv ''/r/sub'' [''['', ''sub''] \<and>
   \<not> isExcludedPath demoEnv ''/r/sub'' [''['']"
  using isExcludedPath_iff [of demoEnv "''/r/sub''" "[''['', ''sub'']" "''[''"]
        isExcludedPath_iff [of demoEnv "''/r/sub''" "[''['']" "''[''"]
  by (simp add: demo_match_bad demo_match_sub)

section \<open>The loop over the entries and the recursion\<close>

lemma processEntries_total:
  assumes "\<And>p i. recurse p i \<noteq> None"
  shows "processEntries recurse e opts cp entries acc \<noteq> None"
proof (induction entries arbitrary: acc)
  case Nil
  show ?case by simp
next
  case (Cons entry entries)
  show ?case
  proof (cases entry)
    case (Inl err)
    with Cons show ?thesis by simp
  next
    case (Inr entryInfo)
    obtain child err where r: "recurse (filepathJoin e cp (fi_Name entryInfo)) entryInfo = Some (child, err)"
      using assms [of "filepathJoin e cp (fi_Name entryInfo)" entryInfo] by (cases "recurse (filepathJoin e cp (fi_Name entryInfo)) entryInfo") auto
    show ?thesis using Inr r Cons
      by (cases child; cases err) (simp_all add: Let_def)
  qed
qed

lemma processEntries_mono:
  assumes "\<And>p i r. recurse p i = Some r \<Longrightarrow> recurse' p i = Some r"
  shows "processEntries recurse e opts cp entries acc = Some x \<Longrightarrow>
         processEntries recurse' e opts cp entries acc = Some x"
proof (induction entries arbitrary: acc)
  case Nil
  then show ?case by simp
next
  case (Cons entry entries)
  show ?case
  proof (cases entry)
    case (Inl err)
    with Cons show ?thesis by simp
  next
    case (Inr entryInfo)
    show ?thesis
    proof (cases "\<not> IncludeFiles opts \<and> \<not> fi_IsDir entryInfo")
      case True
      with Inr Cons show ?thesis by simp
    next
      case False
      let ?fp = "filepathJoin e cp (fi_Name entryInfo)"
      from Cons.prems Inr False obtain child err where
        r: "recurse ?fp entryInfo = Some (child, err)"
        by (cases "recurse ?fp entryInfo") (auto simp: Let_def)
      then have r': "recurse' ?fp entryInfo = Some (child, err)" by (rule assms)
      show ?thesis using Cons Inr False r r'
        by (cases child; cases err) (auto simp: Let_def)
    qed
  qed
qed

lemma processEntries_list_all:
  assumes "\<And>p i c err. fi_IsDir i \<or> IncludeFiles opts \<Longrightarrow> recurse p i = Some (Some c, err) \<Longrightarrow> P c"
  shows "processEntries recurse e opts cp entries acc = Some (Inr cs) \<Longrightarrow>
         list_all P acc \<Longrightarrow> list_all P cs"
proof (induction entries arbitrary: acc)
  case Nil
  then show ?case by simp
next
  case (Cons entry entries)
  show ?case
  proof (cases entry)
    case (Inl err)
    with Cons show ?thesis by simp
  next
    case (Inr entryInfo)
    show ?thesis
    proof (cases "\<not> IncludeFiles opts \<and> \<not> fi_IsDir entryInfo")
      case True
      with Inr Cons show ?thesis by simp
    next
      case False
      let ?fp = "filepathJoin e cp (fi_Name entryInfo)"
      from Cons.prems Inr False obtain child err where
        r: "recurse ?fp entryInfo = Some (child, err)"
        by (cases "recurse ?fp entryInfo") (auto simp: Let_def)
      show ?thesis
      proof (cases child)
        case None
        with Cons Inr False r show ?thesis by (cases err) (auto simp: Let_def)
      next
        case (Some c)
        have "P c" using assms [of entryInfo ?fp c err] False r Some by auto
        with Cons Inr False r Some show ?thesis by (cases err) (auto simp: Let_def)
      qed
    qed
  qed
qed

lemma buildTreeRecursive_not_both:
  "buildTreeRecursive fuel e p i opts d = Some (n, err) \<Longrightarrow> n = None \<or> err = None"
  by (cases fuel) (auto simp: Let_def split: if_splits prod.splits sum.splits option.splits)

lemma buildTreeRecursive_filtered:
  "(MaxDepth opts \<noteq> -1 \<and> d > MaxDepth opts) \<or> isExcludedPath e p (ExcludePaths opts) \<or>
   (fst (nodeTypeAndSize e p i opts) = File \<and> isExcludedType e p (ExcludeTypes opts))
   \<Longrightarrow> buildTreeRecursive (Suc fuel) e p i opts d = Some (None, None)"
  by (auto simp: Let_def split: prod.splits)

lemma buildTreeRecursive_nil_iff:
  "buildTreeRecursive (Suc fuel) e p i opts d = Some (None, None) \<longleftrightarrow>
     (MaxDepth opts \<noteq> -1 \<and> d > MaxDepth opts) \<or> isExcludedPath e p (ExcludePaths opts) \<or>
     (fst (nodeTypeAndSize e p i opts) = File \<and> isExcludedType e p (ExcludeTypes opts))"
  by (auto simp: Let_def split: prod.splits sum.splits option.splits)

lemma buildTreeRecursive_mono:
  "buildTreeRecursive fuel e p i opts d = Some r \<Longrightarrow> fuel \<le> fuel' \<Longrightarrow>
   buildTreeRecursive fuel' e p i opts d = Some r"
proof (induction fuel arbitrary: fuel' p i d r)
  case 0
  then show ?case by simp
next
  case (Suc fuel)
  then obtain f' where f': "fuel' = Suc f'" "fuel \<le> f'" by (cases fuel') auto
  have step: "\<And>fp ei x. buildTreeRecursive fuel e fp ei opts (d + 1) = Some x \<Longrightarrow>
        buildTreeRecursive f' e fp ei opts (d + 1) = Some x"
    using Suc.IH f'(2) by blast
  have pe: "\<And>cp entries acc x. processEntries (\<lambda>fp ei. buildTreeRecursive fuel e fp ei opts (d + 1)) e opts cp entries acc = Some x
      \<Longrightarrow> processEntries (\<lambda>fp ei. buildTreeRecursive f' e fp ei opts (d + 1)) e opts cp entries acc = Some x"
    by (rule processEntries_mono [where recurse = "\<lambda>fp ei. buildTreeRecursive fuel e fp ei opts (d + 1)"]) (auto dest: step)
  show ?case using Suc.prems(1) unfolding f'(1)
    by (auto simp: Let_def split: if_splits prod.splits sum.splits option.splits dest: pe)
qed

section \<open>Depth limit\<close>

lemma heightAtMost_leaf: "Children n = [] \<Longrightarrow> heightAtMost h n"
  by (cases h) simp_all

lemma heightAtMost_nodesAtDepth:
  "heightAtMost h n \<Longrightarrow>
     (\<forall>j. h < j \<longrightarrow> nodesAtDepth n j = []) \<and> list_all (\<lambda>m. Children m = []) (nodesAtDepth n h)"
proof (induction h arbitrary: n)
  case 0
  then have c: "Children n = []" by simp
  have "nodesAtDepth n j = []" if "0 < j" for j
    using that c by (cases j) simp_all
  with c show ?case by simp
next
  case (Suc h)
  then have kids: "\<And>c. c \<in> set (Children n) \<Longrightarrow> heightAtMost h c"
    by (simp add: list_all_iff)
  have "nodesAtDepth n j = []" if "Suc h < j" for j
  proof -
    from that obtain j' where j: "j = Suc j'" "h < j'" by (cases j) auto
    then show ?thesis using Suc.IH kids by simp
  qed
  moreover have "list_all (\<lambda>m. Children m = []) (nodesAtDepth n (Suc h))"
    using Suc.IH kids by (auto simp: list_all_iff)
  ultimately show ?case by blast
qed

lemma buildTreeRecursive_height:
  "buildTreeRecursive fuel e p i opts d = Some (Some n, err) \<Longrightarrow> 0 \<le> MaxDepth opts \<Longrightarrow>
     d \<le> MaxDepth opts \<and> heightAtMost (nat (MaxDepth opts - d)) n"
proof (induction fuel arbitrary: p i d n err)
  case 0
  then show ?case by simp
next
  case (Suc fuel)
  let ?P = "\<lambda>c. d + 1 \<le> MaxDepth opts \<and> heightAtMost (nat (MaxDepth opts - (d + 1))) c"
  have d: "d \<le> MaxDepth opts"
    using Suc.prems by (auto split: if_splits)
  have kids: "list_all ?P cs"
    if "processEntries (\<lambda>fp ei. buildTreeRecursive fuel e fp ei opts (d + 1)) e opts cp entries [] = Some (Inr cs)"
    for cp entries cs
    using _ that
  proof (rule processEntries_list_all)
    show "list_all ?P []" by simp
  next
    fix fp ei c er
    assume "buildTreeRecursive fuel e fp ei opts (d + 1) = Some (Some c, er)"
    then show "?P c" using Suc.IH Suc.prems(2) by blast
  qed
  have h: "heightAtMost (nat (MaxDepth opts - d)) (Node nm pa ty sz cs hid)"
    if "list_all ?P cs" for nm pa ty sz cs hid
  proof (cases "d = MaxDepth opts")
    case True
    with that have "cs = []" by (cases cs) auto
    then show ?thesis by (simp add: heightAtMost_leaf)
  next
    case False
    with d have "nat (MaxDepth opts - d) = Suc (nat (MaxDepth opts - (d + 1)))" by simp
    with that show ?thesis by (simp add: list_all_iff)
  qed
  have "heightAtMost (nat (MaxDepth opts - d)) n"
    using Suc.prems(1)
    by (auto simp: Let_def heightAtMost_leaf split: if_splits prod.splits sum.splits option.splits
             dest!: kids intro!: h)
  with d show ?case by simp
qed

lemma buildTreeRecursive_returns:
  "0 \<le> MaxDepth opts \<Longrightarrow> 0 < fuel \<Longrightarrow> MaxDepth opts - d + 2 \<le> int fuel \<Longrightarrow>
     buildTreeRecursive fuel e p i opts d \<noteq> None"
proof (induction fuel arbitrary: p i d)
  case 0
  then show ?case by simp
next
  case (Suc fuel)
  show ?case
  proof (cases "d > MaxDepth opts")
    case True
    with Suc.prems(1) show ?thesis by simp
  next
    case False
    then have "0 < fuel" "MaxDepth opts - (d + 1) + 2 \<le> int fuel"
      using Suc.prems by auto
    then have rec: "\<And>fp ei. buildTreeRecursive fuel e fp ei opts (d + 1) \<noteq> None"
      using Suc.IH Suc.prems(1) by blast
    have pe: "processEntries (\<lambda>fp ei. buildTreeRecursive fuel e fp ei opts (d + 1)) e opts cp entries acc \<noteq> None"
      for cp entries acc
      by (rule processEntries_total) (rule rec)
    show ?thesis
      by (simp add: Let_def pe split: prod.splits sum.splits option.splits)
  qed
qed


lemma keptEntries_Nil [simp]: "keptEntries e opts cp [] = []"
  by (simp add: keptEntries_def)

lemma keptEntries_Cons:
  "keptEntries e opts cp (entry # entries) =
     (case entry of
         Inl err \<Rightarrow> []
       | Inr entryInfo \<Rightarrow>
           (let fullPath = filepathJoin e cp (fi_Name entryInfo) in
            if \<not> IncludeFiles opts \<and> \<not> fi_IsDir entryInfo then []
            else if isExcludedPath e fullPath (ExcludePaths opts) then []
            else if fst (nodeTypeAndSize e fullPath entryInfo opts) = File \<and>
                    isExcludedType e fullPath (ExcludeTypes opts) then []
            else [(fullPath, entryInfo)])) @ keptEntries e opts cp entries"
  by (simp add: keptEntries_def)

lemma buildTreeRecursive_node_shape:
  "buildTreeRecursive fuel e p i opts d = Some (Some n, err) \<Longrightarrow>
     stripChildren n = entryNode e opts (p, i)"
  by (cases fuel)
     (auto simp: Let_def stripChildren_def entryNode_def
           split: if_splits prod.splits sum.splits option.splits)

lemma buildTreeRecursive_nil_within_depth:
  assumes "MaxDepth opts = -1 \<or> d \<le> MaxDepth opts"
    and "buildTreeRecursive fuel e p i opts d = Some (x, None)"
  shows "x = None \<longleftrightarrow>
           isExcludedPath e p (ExcludePaths opts) \<or>
           (fst (nodeTypeAndSize e p i opts) = File \<and> isExcludedType e p (ExcludeTypes opts))"
proof -
  from assms(2) obtain f where f: "fuel = Suc f" by (cases fuel) auto
  show ?thesis
    using assms buildTreeRecursive_nil_iff [of f e p i opts d] unfolding f by auto
qed

lemma processEntries_shape:
  assumes step: "\<And>fp ei x. IncludeFiles opts \<or> fi_IsDir ei \<Longrightarrow> recurse fp ei = Some (x, None) \<Longrightarrow>
            (x = None \<longleftrightarrow> isExcludedPath e fp (ExcludePaths opts) \<or>
               (fst (nodeTypeAndSize e fp ei opts) = File \<and> isExcludedType e fp (ExcludeTypes opts))) \<and>
            (\<forall>n. x = Some n \<longrightarrow> stripChildren n = entryNode e opts (fp, ei))"
  shows "processEntries recurse e opts cp entries acc = Some (Inr cs) \<Longrightarrow>
         map stripChildren cs =
           map stripChildren acc @ map (entryNode e opts) (keptEntries e opts cp entries)"
proof (induction entries arbitrary: acc)
  case Nil
  then show ?case by simp
next
  case (Cons entry entries)
  show ?case
  proof (cases entry)
    case (Inl err)
    with Cons show ?thesis by (simp add: keptEntries_Cons)
  next
    case (Inr entryInfo)
    let ?fp = "filepathJoin e cp (fi_Name entryInfo)"
    show ?thesis
    proof (cases "\<not> IncludeFiles opts \<and> \<not> fi_IsDir entryInfo")
      case True
      with Inr Cons show ?thesis by (simp add: keptEntries_Cons)
    next
      case False
      then have vis: "IncludeFiles opts \<or> fi_IsDir entryInfo" by blast
      from Cons.prems Inr False obtain x err where
        r: "recurse ?fp entryInfo = Some (x, err)"
        by (cases "recurse ?fp entryInfo") (auto simp: Let_def)
      have err: "err = None"
        using Cons.prems Inr False r by (cases x; cases err) (auto simp: Let_def)
      note s = step [OF vis r [unfolded err]]
      show ?thesis
      proof (cases x)
        case None
        with s have filt: "isExcludedPath e ?fp (ExcludePaths opts) \<or>
               (fst (nodeTypeAndSize e ?fp entryInfo opts) = File \<and> isExcludedType e ?fp (ExcludeTypes opts))"
          by simp
        have "processEntries recurse e opts cp entries acc = Some (Inr cs)"
          using Cons.prems Inr False r err None by (auto simp: Let_def)
        then have "map stripChildren cs =
           map stripChildren acc @ map (entryNode e opts) (keptEntries e opts cp entries)"
          by (rule Cons.IH)
        moreover have "keptEntries e opts cp (entry # entries) = keptEntries e opts cp entries"
          using Inr False filt by (auto simp: keptEntries_Cons Let_def)
        ultimately show ?thesis by simp
      next
        case (Some n)
        with s have nf: "\<not> (isExcludedPath e ?fp (ExcludePaths opts) \<or>
               (fst (nodeTypeAndSize e ?fp entryInfo opts) = File \<and> isExcludedType e ?fp (ExcludeTypes opts)))"
          and sh: "stripChildren n = entryNode e opts (?fp, entryInfo)"
          by simp_all
        have "processEntries recurse e opts cp entries (acc @ [n]) = Some (Inr cs)"
          using Cons.prems Inr False r err Some by (auto simp: Let_def)
        then have "map stripChildren cs =
           map stripChildren (acc @ [n]) @ map (entryNode e opts) (keptEntries e opts cp entries)"
          by (rule Cons.IH)
        moreover have "keptEntries e opts cp (entry # entries) =
             (?fp, entryInfo) # keptEntries e opts cp entries"
          using Inr False nf by (auto simp: keptEntries_Cons Let_def)
        ultimately show ?thesis using sh by simp
      qed
    qed
  qed
qed

lemma buildTreeRecursive_populated:
  "buildTreeRecursive fuel e p i opts d = Some (Some n, err) \<Longrightarrow> 0 \<le> MaxDepth opts \<Longrightarrow>
     (\<forall>j. d + int j < MaxDepth opts \<longrightarrow> list_all (populated e opts) (nodesAtDepth n j))"
proof (induction fuel arbitrary: p i d n err)
  case 0
  then show ?case by simp
next
  case (Suc fuel)
  let ?rec = "\<lambda>fp ei. buildTreeRecursive fuel e fp ei opts (d + 1)"
  let ?P = "\<lambda>c. \<forall>j. (d + 1) + int j < MaxDepth opts \<longrightarrow> list_all (populated e opts) (nodesAtDepth c j)"
  obtain ty sz where t: "nodeTypeAndSize e p i opts = (ty, sz)"
    by (cases "nodeTypeAndSize e p i opts")
  show ?case
  proof (cases "ty = Directory")
    case False
    with Suc.prems(1) t have n: "n = Node (fi_Name i) p ty sz [] (isHiddenFile (fi_Name i))"
      by (auto simp: Let_def split: if_splits)
    have "list_all (populated e opts) (nodesAtDepth n j)" for j
      using n False by (cases j) (simp_all add: populated_def)
    then show ?thesis by blast
  next
    case True
    from Suc.prems(1) t True obtain entries cs where
      r: "readEntries e p opts Directory = Inr entries"
      and pe: "processEntries ?rec e opts p entries [] = Some (Inr cs)"
      and n: "n = Node (fi_Name i) p Directory sz cs (isHiddenFile (fi_Name i))"
      by (auto simp: Let_def split: if_splits sum.splits option.splits)
    from r have rd: "osReadDir e p = Inr entries"
      by (auto simp: readEntries_def split: sum.splits)
    have kids: "list_all ?P cs"
      using _ pe
    proof (rule processEntries_list_all)
      show "list_all ?P []" by simp
    next
      fix fp ei c er
      assume "buildTreeRecursive fuel e fp ei opts (d + 1) = Some (Some c, er)"
      then show "?P c" using Suc.IH Suc.prems(2) by blast
    qed
    have top: "populated e opts n" if "d < MaxDepth opts"
    proof -
      have "map stripChildren cs =
              map stripChildren [] @ map (entryNode e opts) (keptEntries e opts p entries)"
        using _ pe
      proof (rule processEntries_shape)
        fix fp ei x
        assume "buildTreeRecursive fuel e fp ei opts (d + 1) = Some (x, None)"
        then show "(x = None \<longleftrightarrow> isExcludedPath e fp (ExcludePaths opts) \<or>
               (fst (nodeTypeAndSize e fp ei opts) = File \<and> isExcludedType e fp (ExcludeTypes opts))) \<and>
            (\<forall>n. x = Some n \<longrightarrow> stripChildren n = entryNode e opts (fp, ei))"
          using buildTreeRecursive_nil_within_depth [of opts "d + 1" fuel e fp ei x]
                buildTreeRecursive_node_shape [of fuel e fp ei opts "d + 1"] that
          by auto
      qed
      then show ?thesis using n rd by (simp add: populated_def)
    qed
    have "list_all (populated e opts) (nodesAtDepth n j)" if "d + int j < MaxDepth opts" for j
    proof (cases j)
      case 0
      with that top show ?thesis by simp
    next
      case (Suc j')
      with that have "(d + 1) + int j' < MaxDepth opts" by simp
      with kids have "\<forall>c \<in> set cs. list_all (populated e opts) (nodesAtDepth c j')"
        by (auto simp: list_all_iff)
      with Suc n show ?thesis by (auto simp: list_all_iff)
    qed
    then show ?thesis by blast
  qed
qed

lemma stripChildren_leaf: "Children n = [] \<Longrightarrow> stripChildren n = n"
  by (cases n) (simp add: stripChildren_def)

lemma demo_build: "BuildTree 3 demoEnv demoOpts = Some (Some demoTree, None)"
  by code_simp

text \<open>
  Claim C5. For every maximum depth \<open>k \<ge> 0\<close>, a tree returned by \<^verbatim>\<open>BuildTree\<close> has no node
  at a depth greater than \<open>k\<close>, and every node at depth exactly \<open>k\<close> is a leaf, whatever the
  directory behind it holds. The limit cuts nothing above it: every node at a depth below
  \<open>k\<close> is populated, a directory node there has one child for each kept entry of its
  listing. With \<open>k = 1\<close> the tree is the root with exactly its immediate children, the nodes
  of the kept entries of the root directory, and these have no children.
\<close>

theorem BuildTree_depth_limit:
  assumes "0 \<le> MaxDepth opts" and "BuildTree fuel e opts = Some (Some root, err)"
  shows "(\<forall>j. MaxDepth opts < int j \<longrightarrow> nodesAtDepth root j = []) \<and>
         list_all (\<lambda>n. Children n = []) (nodesAtDepth root (nat (MaxDepth opts))) \<and>
         (\<forall>j. int j < MaxDepth opts \<longrightarrow> list_all (populated e opts) (nodesAtDepth root j)) \<and>
         (MaxDepth opts = 1 \<longrightarrow>
            list_all (\<lambda>c. Children c = []) (Children root) \<and>
            (Type root = Directory \<longrightarrow>
               (\<exists>entries. osReadDir e (opt_Path opts) = Inr entries \<and>
                  Children root =
                    map (entryNode e opts) (keptEntries e opts (opt_Path opts) entries))))"
proof -
  from assms(2) obtain info where
    b: "buildTreeRecursive fuel e (opt_Path opts) info opts 0 = Some (Some root, err)"
    by (auto simp: BuildTree_def split: sum.splits)
  then have h: "heightAtMost (nat (MaxDepth opts)) root"
    using buildTreeRecursive_height [of fuel e "opt_Path opts" info opts 0 root err] assms(1)
    by simp
  note n = heightAtMost_nodesAtDepth [OF h]
  have a: "\<forall>j. MaxDepth opts < int j \<longrightarrow> nodesAtDepth root j = []"
  proof (intro allI impI)
    fix j assume "MaxDepth opts < int j"
    with assms(1) have "nat (MaxDepth opts) < j" by linarith
    with n show "nodesAtDepth root j = []" by blast
  qed
  have l: "list_all (\<lambda>n. Children n = []) (nodesAtDepth root (nat (MaxDepth opts)))"
    using n by blast
  have p: "\<forall>j. int j < MaxDepth opts \<longrightarrow> list_all (populated e opts) (nodesAtDepth root j)"
    using buildTreeRecursive_populated [OF b assms(1)] by simp
  have path: "Path root = opt_Path opts"
    using buildTreeRecursive_node_shape [OF b]
    by (cases root) (simp add: stripChildren_def entryNode_def)
  have c: "list_all (\<lambda>c. Children c = []) (Children root) \<and>
            (Type root = Directory \<longrightarrow>
               (\<exists>entries. osReadDir e (opt_Path opts) = Inr entries \<and>
                  Children root =
                    map (entryNode e opts) (keptEntries e opts (opt_Path opts) entries)))"
    if k: "MaxDepth opts = 1"
  proof -
    from l k have "list_all (\<lambda>n. Children n = []) (nodesAtDepth root (Suc 0))" by simp
    then have leaves: "list_all (\<lambda>c. Children c = []) (Children root)"
      by (simp add: list_all_iff)
    then have same: "map stripChildren (Children root) = Children root"
      by (simp add: list_all_iff stripChildren_leaf map_idI)
    from p k have "populated e opts root"
      using spec [OF p, of 0] by simp
    with same path have "Type root = Directory \<longrightarrow>
               (\<exists>entries. osReadDir e (opt_Path opts) = Inr entries \<and>
                  Children root =
                    map (entryNode e opts) (keptEntries e opts (opt_Path opts) entries))"
      by (auto simp: populated_def split: sum.splits)
    with leaves show ?thesis by blast
  qed
  from a l p c show ?thesis by blast
qed

theorem BuildTree_depth_limit_witness:
  "BuildTree 3 demoEnv demoOpts = Some (Some demoTree, None) \<and>
   MaxDepth demoOpts = 1 \<and>
   length (Children demoTree) = 5 \<and>
   nodesAtDepth demoTree 2 = [] \<and>
   list_all (\<lambda>c. Children c = []) (Children demoTree) \<and>
   osReadDir demoEnv ''/r'' = Inr demoListing \<and>
   Children demoTree = map (entryNode demoEnv demoOpts) (keptEntries demoEnv demoOpts ''/r'' demoListing)"
proof -
  have k: "0 \<le> MaxDepth demoOpts" "MaxDepth demoOpts = 1" "opt_Path demoOpts = ''/r''"
    by (simp_all add: demoOpts_def)
  have t: "Type demoTree = Directory" by (simp add: demoTree_def)
  have l: "osReadDir demoEnv ''/r'' = Inr demoListing" by code_simp
  note d = BuildTree_depth_limit [OF k(1) demo_build]
  from d k(2)
  have a: "nodesAtDepth demoTree 2 = []" "list_all (\<lambda>c. Children c = []) (Children demoTree)"
    by simp_all
  from d k t l
  have b: "Children demoTree =
             map (entryNode demoEnv demoOpts) (keptEntries demoEnv demoOpts ''/r'' demoListing)"
    by simp
  have c: "length (Children demoTree) = 5" by (simp add: demoTree_def)
  from a b c l demo_build k(2) show ?thesis by blast
qed

section \<open>Termination under a depth limit\<close>

lemma cycle_build: "BuildTree 4 cycleEnv cycleOpts = Some (Some cycleTree, None)"
  by code_simp

lemma BuildTree_mono:
  "BuildTree fuel e opts = Some r \<Longrightarrow> fuel \<le> fuel' \<Longrightarrow> BuildTree fuel' e opts = Some r"
  by (auto simp: BuildTree_def split: sum.splits dest: buildTreeRecursive_mono)

text \<open>
  Claim C9. For every maximum depth \<open>k \<ge> 0\<close>, \<^verbatim>\<open>BuildTree\<close> returns on every file system,
  symlink cycles that are followed included: \<open>k + 2\<close> nested calls are enough (depths 0 to
  \<open>k\<close>, and the calls at depth \<open>k + 1\<close> that return at the depth check), and a larger bound
  gives the same result.
\<close>

theorem BuildTree_terminates:
  assumes "0 \<le> MaxDepth opts"
  shows "\<exists>r. BuildTree (nat (MaxDepth opts) + 2) e opts = Some r \<and>
             (\<forall>fuel. nat (MaxDepth opts) + 2 \<le> fuel \<longrightarrow> BuildTree fuel e opts = Some r)"
proof -
  have "BuildTree (nat (MaxDepth opts) + 2) e opts \<noteq> None"
  proof (cases "osStat e (opt_Path opts)")
    case (Inl err)
    then show ?thesis by (simp add: BuildTree_def)
  next
    case (Inr info)
    have "buildTreeRecursive (nat (MaxDepth opts) + 2) e (opt_Path opts) info opts 0 \<noteq> None"
      using assms by (intro buildTreeRecursive_returns) auto
    with Inr show ?thesis by (simp add: BuildTree_def)
  qed
  then obtain r where r: "BuildTree (nat (MaxDepth opts) + 2) e opts = Some r" by blast
  then have "\<forall>fuel. nat (MaxDepth opts) + 2 \<le> fuel \<longrightarrow> BuildTree fuel e opts = Some r"
    using BuildTree_mono by blast
  with r show ?thesis by blast
qed

theorem BuildTree_terminates_witness:
  "MaxDepth cycleOpts = 2 \<and> FollowLinks cycleOpts \<and>
   BuildTree 4 cycleEnv cycleOpts = Some (Some cycleTree, None) \<and>
   BuildTree 1000 cycleEnv cycleOpts = Some (Some cycleTree, None)"
proof -
  have k: "0 \<le> MaxDepth cycleOpts" "nat (MaxDepth cycleOpts) + 2 = 4"
    by (simp_all add: cycleOpts_def)
  from BuildTree_terminates [OF k(1), of cycleEnv] obtain r where
    r: "BuildTree 4 cycleEnv cycleOpts = Some r"
       "\<forall>fuel. 4 \<le> fuel \<longrightarrow> BuildTree fuel cycleEnv cycleOpts = Some r"
    unfolding k(2) by blast
  from r(1) cycle_build have "r = (Some cycleTree, None)" by simp
  with r(2) have "BuildTree 1000 cycleEnv cycleOpts = Some (Some cycleTree, None)" by simp
  with cycle_build show ?thesis by (simp add: cycleOpts_def)
qed

text \<open>
  With unlimited depth the same cycle is followed without end: no bound on the nesting
  makes the builder return.
\<close>

lemma cycle_unlimited_rec:
  "nodeTypeAndSize cycleEnv p i (cycleOpts\<lparr>MaxDepth := -1\<rparr>) = (Directory, 0) \<Longrightarrow>
   buildTreeRecursive fuel cycleEnv p i (cycleOpts\<lparr>MaxDepth := -1\<rparr>) d = None"
proof (induction fuel arbitrary: p i d)
  case 0
  then show ?case by simp
next
  case (Suc fuel)
  have t: "nodeTypeAndSize cycleEnv q (linkInfo ''loop'' 2) (cycleOpts\<lparr>MaxDepth := -1\<rparr>) = (Directory, 0)" for q
    by (simp add: nodeTypeAndSize_def cycleEnv_def cycleOpts_def linkInfo_def dirInfo_def)
  have r: "readEntries cycleEnv p (cycleOpts\<lparr>MaxDepth := -1\<rparr>) Directory = Inr [Inr (linkInfo ''loop'' 2)]"
    by (simp add: readEntries_def cycleEnv_def)
  have x: "\<not> isExcludedPath cycleEnv p (ExcludePaths (cycleOpts\<lparr>MaxDepth := -1\<rparr>))"
    by (simp add: cycleOpts_def)
  have inc: "IncludeFiles (cycleOpts\<lparr>MaxDepth := -1\<rparr>)" by (simp add: cycleOpts_def)
  show ?case
    using Suc.prems Suc.IH [OF t] r x inc by (simp add: Let_def)
qed

lemma cycle_unlimited: "BuildTree fuel cycleEnv (cycleOpts\<lparr>MaxDepth := -1\<rparr>) = None"
proof -
  have s: "osStat cycleEnv (opt_Path (cycleOpts\<lparr>MaxDepth := -1\<rparr>)) = Inr (dirInfo ''c'')"
    by (simp add: cycleEnv_def)
  have t: "nodeTypeAndSize cycleEnv p (dirInfo ''c'') (cycleOpts\<lparr>MaxDepth := -1\<rparr>) = (Directory, 0)" for p
    by (simp add: nodeTypeAndSize_def dirInfo_def)
  show ?thesis
    unfolding BuildTree_def s by (simp add: cycle_unlimited_rec [OF t])
qed

section \<open>Node or error, never both\<close>

lemma BuildTree_not_both:
  "BuildTree fuel e opts = Some (n, err) \<Longrightarrow> n = None \<or> err = None"
  by (auto simp: BuildTree_def split: sum.splits dest: buildTreeRecursive_not_both)

text \<open>
  Claim C7. \<^verbatim>\<open>BuildTree\<close> and the recursive builder never return a node together with an
  error: whenever the error is not nil, the node is nil. An entry removed by the depth
  limit, by a path-exclusion pattern or by the type exclusion of a file makes the
  recursive builder return \<^verbatim>\<open>(nil, nil)\<close>, not an error.
\<close>

theorem BuildTree_node_or_error:
  "(BuildTree fuel e opts = Some (root, err) \<longrightarrow> err \<noteq> None \<longrightarrow> root = None) \<and>
   (buildTreeRecursive fuel e p i opts d = Some (n, err') \<longrightarrow> err' \<noteq> None \<longrightarrow> n = None) \<and>
   ((MaxDepth opts \<noteq> -1 \<and> d > MaxDepth opts) \<or> isExcludedPath e p (ExcludePaths opts) \<or>
    (fst (nodeTypeAndSize e p i opts) = File \<and> isExcludedType e p (ExcludeTypes opts))
    \<longrightarrow> buildTreeRecursive (Suc fuel) e p i opts d = Some (None, None))"
  using BuildTree_not_both [of fuel e opts root err]
        buildTreeRecursive_not_both [of fuel e p i opts d n err']
        buildTreeRecursive_filtered [of opts d e p i fuel]
  by blast

lemma locked_build:
  "BuildTree 3 lockedEnv demoOpts =
     Some (None, Some (ErrReadingDirectory ''/r/sub'' (LibError ''permission denied'')))"
  by code_simp

lemma go_file_type:
  "fst (nodeTypeAndSize demoEnv ''/r/x.go'' (fileInfo ''x.go'' 5) goOpts) = File \<and>
   isExcludedType demoEnv ''/r/x.go'' (ExcludeTypes goOpts)"
  by code_simp

theorem BuildTree_node_or_error_witness:
  "BuildTree 3 lockedEnv demoOpts =
     Some (None, Some (ErrReadingDirectory ''/r/sub'' (LibError ''permission denied''))) \<and>
   buildTreeRecursive 1 demoEnv ''/r/x.go'' (fileInfo ''x.go'' 5) goOpts 1 = Some (None, None)"
  using BuildTree_node_or_error [of 0 demoEnv goOpts None None "''/r/x.go''" "fileInfo ''x.go'' 5" 1 None None]
        BuildTree_node_or_error [of 3 lockedEnv demoOpts None
          "Some (ErrReadingDirectory ''/r/sub'' (LibError ''permission denied''))"]
        go_file_type locked_build
  by simp

section \<open>The root is filtered like every other entry\<close>

text \<open>
  Claim C2 says that \<^verbatim>\<open>BuildTree\<close> returns a non-nil root whenever the root path stats
  successfully, even when the root matches an exclusion. The code runs the same checks on
  the root as on every entry: a root file with an excluded extension, and a root directory
  whose path matches an exclusion pattern, both give \<^verbatim>\<open>(nil, nil)\<close>.
\<close>

theorem BuildTree_root_excluded:
  "osStat demoEnv (opt_Path rootFileOpts) = Inr (fileInfo ''x.go'' 5) \<and>
   BuildTree 2 demoEnv rootFileOpts = Some (None, None) \<and>
   osStat demoEnv (opt_Path rootPathOpts) = Inr (dirInfo ''r'') \<and>
   BuildTree 2 demoEnv rootPathOpts = Some (None, None)"
  by code_simp

text \<open>
  Claim C2, amended. When the root path stats successfully, \<^verbatim>\<open>BuildTree\<close> is the recursive
  builder at the root with depth 0 (the root is visited unconditionally), and when it
  returns without error the root node is nil exactly when the maximum depth is below -1,
  or the root path matches an exclusion pattern that compiles, or the root is classified
  as a file and its extension is excluded.
\<close>

theorem BuildTree_root_nil_iff:
  assumes "osStat e (opt_Path opts) = Inr info"
  shows "BuildTree fuel e opts = buildTreeRecursive fuel e (opt_Path opts) info opts 0 \<and>
         (BuildTree fuel e opts = Some (root, None) \<longrightarrow>
            (root = None \<longleftrightarrow>
               (MaxDepth opts \<noteq> -1 \<and> 0 > MaxDepth opts) \<or>
               isExcludedPath e (opt_Path opts) (ExcludePaths opts) \<or>
               (fst (nodeTypeAndSize e (opt_Path opts) info opts) = File \<and>
                isExcludedType e (opt_Path opts) (ExcludeTypes opts))))"
proof -
  have eq: "BuildTree fuel e opts = buildTreeRecursive fuel e (opt_Path opts) info opts 0"
    using assms by (simp add: BuildTree_def)
  have "root = None \<longleftrightarrow>
               (MaxDepth opts \<noteq> -1 \<and> 0 > MaxDepth opts) \<or>
               isExcludedPath e (opt_Path opts) (ExcludePaths opts) \<or>
               (fst (nodeTypeAndSize e (opt_Path opts) info opts) = File \<and>
                isExcludedType e (opt_Path opts) (ExcludeTypes opts))"
    if r: "BuildTree fuel e opts = Some (root, None)"
  proof -
    from r eq obtain f where f: "fuel = Suc f" by (cases fuel) auto
    from r eq f have "buildTreeRecursive (Suc f) e (opt_Path opts) info opts 0 = Some (root, None)"
      by simp
    then show ?thesis
      using buildTreeRecursive_nil_iff [of f e "opt_Path opts" info opts 0] by auto
  qed
  with eq show ?thesis by blast
qed

theorem BuildTree_root_nil_iff_witness:
  "BuildTree 2 demoEnv rootFileOpts = Some (None, None) \<and>
   fst (nodeTypeAndSize demoEnv ''/r/x.go'' (fileInfo ''x.go'' 5) rootFileOpts) = File \<and>
   isExcludedType demoEnv ''/r/x.go'' (ExcludeTypes rootFileOpts) \<and>
   BuildTree 3 demoEnv demoOpts = Some (Some demoTree, None) \<and>
   \<not> isExcludedPath demoEnv ''/r'' (ExcludePaths demoOpts) \<and>
   fst (nodeTypeAndSize demoEnv ''/r'' (dirInfo ''r'') demoOpts) \<noteq> File"
proof -
  have s1: "osStat demoEnv (opt_Path rootFileOpts) = Inr (fileInfo ''x.go'' 5)"
    by code_simp
  have s2: "osStat demoEnv (opt_Path demoOpts) = Inr (dirInfo ''r'')"
    by code_simp
  have b1: "BuildTree 2 demoEnv rootFileOpts = Some (None, None)" by code_simp
  have m: "\<not> (MaxDepth rootFileOpts \<noteq> -1 \<and> 0 > MaxDepth rootFileOpts)"
          "\<not> isExcludedPath demoEnv (opt_Path rootFileOpts) (ExcludePaths rootFileOpts)"
          "opt_Path rootFileOpts = ''/r/x.go''" "opt_Path demoOpts = ''/r''"
    by (simp_all add: rootFileOpts_def demoOpts_def)
  from BuildTree_root_nil_iff [OF s1, of 2 None] b1 m
  have c1: "fst (nodeTypeAndSize demoEnv ''/r/x.go'' (fileInfo ''x.go'' 5) rootFileOpts) = File \<and>
            isExcludedType demoEnv ''/r/x.go'' (ExcludeTypes rootFileOpts)"
    by simp
  from BuildTree_root_nil_iff [OF s2, of 3 "Some demoTree"] demo_build m
  have c2: "\<not> isExcludedPath demoEnv ''/r'' (ExcludePaths demoOpts) \<and>
            \<not> (fst (nodeTypeAndSize demoEnv ''/r'' (dirInfo ''r'') demoOpts) = File \<and>
               isExcludedType demoEnv ''/r'' (ExcludeTypes demoOpts))"
    by simp
  have c3: "fst (nodeTypeAndSize demoEnv ''/r'' (dirInfo ''r'') demoOpts) \<noteq> File"
    by (simp add: nodeTypeAndSize_def dirInfo_def)
  from b1 c1 c2 c3 demo_build show ?thesis by blast
qed

section \<open>Type exclusion of a followed symlink\<close>

lemma isExcludedType_iff:
  "isExcludedType e p types \<longleftrightarrow>
     (\<exists>t \<in> set types. stringsToLower e t = stringsToLower e (filepathExt e p))"
proof -
  have "excludedExtIn e ext types \<longleftrightarrow> (\<exists>t \<in> set types. stringsToLower e t = ext)" for ext
    by (induction types) auto
  then show ?thesis by (simp add: isExcludedType_def)
qed

text \<open>
  Claim C4 says that a followed symlink which resolves to a file with an excluded
  extension is omitted, whatever the symlink's own path is. The code tests the extension
  of the symlink's path: \<^verbatim>\<open>link\<close>, which resolves to \<^verbatim>\<open>/r/x.go\<close>, stays in the tree
  although \<^verbatim>\<open>.GO\<close> is excluded.
\<close>

theorem symlink_to_excluded_file_kept:
  "filepathEvalSymlinks demoEnv ''/r/link'' = Inr ''/r/x.go'' \<and>
   osStat demoEnv ''/r/x.go'' = Inr (fileInfo ''x.go'' 5) \<and>
   isExcludedType demoEnv ''/r/x.go'' (ExcludeTypes linkOpts) \<and>
   FollowLinks linkOpts \<and>
   buildTreeRecursive 1 demoEnv ''/r/link'' (linkInfo ''link'' 7) linkOpts 1 =
     Some (Some (Node ''link'' ''/r/link'' File 5 [] False), None) \<and>
   BuildTree 3 demoEnv linkOpts = Some (Some linkTree, None)"
  by code_simp

text \<open>
  Claim C4, amended. With following enabled, a symlink that resolves to a regular file is
  reclassified as a file node with the size of the target, and the type exclusion then
  decides on the extension of the symlink's own path, compared in lower case: the entry
  is omitted exactly when that extension is one of the excluded ones. The path of the
  target is not consulted.
\<close>

theorem symlink_file_type_exclusion:
  assumes "FollowLinks opts" and "\<not> fi_IsDir info" and "fi_ModeSymlink info"
    and "filepathEvalSymlinks e p = Inr target" and "osStat e target = Inr targetInfo"
    and "\<not> fi_IsDir targetInfo"
    and "\<not> (MaxDepth opts \<noteq> -1 \<and> d > MaxDepth opts)"
    and "\<not> isExcludedPath e p (ExcludePaths opts)"
  shows "buildTreeRecursive (Suc fuel) e p info opts d =
           (if \<exists>t \<in> set (ExcludeTypes opts).
                  stringsToLower e t = stringsToLower e (filepathExt e p)
            then Some (None, None)
            else Some (Some (Node (fi_Name info) p File (fi_Size targetInfo) []
                               (isHiddenFile (fi_Name info))), None))"
proof -
  have t: "nodeTypeAndSize e p info opts = (File, fi_Size targetInfo)"
    using assms by (simp add: nodeTypeAndSize_def)
  show ?thesis
    using assms(7,8) t by (auto simp: Let_def isExcludedType_iff)
qed

theorem symlink_file_type_exclusion_witness:
  "buildTreeRecursive 1 demoEnv ''/r/link'' (linkInfo ''link'' 7) linkOpts 1 =
     Some (Some (Node ''link'' ''/r/link'' File 5 [] False), None)"
proof -
  have h: "FollowLinks linkOpts" "\<not> fi_IsDir (linkInfo ''link'' 7)"
    "fi_ModeSymlink (linkInfo ''link'' 7)"
    "filepathEvalSymlinks demoEnv ''/r/link'' = Inr ''/r/x.go''"
    "osStat demoEnv ''/r/x.go'' = Inr (fileInfo ''x.go'' 5)"
    "\<not> fi_IsDir (fileInfo ''x.go'' 5)"
    "\<not> (MaxDepth linkOpts \<noteq> -1 \<and> 1 > MaxDepth linkOpts)"
    "\<not> isExcludedPath demoEnv ''/r/link'' (ExcludePaths linkOpts)"
    by code_simp+
  have x: "\<not> (\<exists>t \<in> set (ExcludeTypes linkOpts).
            stringsToLower demoEnv t = stringsToLower demoEnv (filepathExt demoEnv ''/r/link''))"
    by code_simp
  have n: "fi_Name (linkInfo ''link'' 7) = ''link''" "fi_Size (fileInfo ''x.go'' 5) = 5"
    "isHiddenFile ''link'' = False"
    by code_simp+
  from symlink_file_type_exclusion [OF h, of 0] x n show ?thesis by simp
qed

section \<open>Listing directories only\<close>





section \<open>Errors abort the build\<close>

lemma processEntries_append:
  "processEntries recurse e opts cp (xs @ ys) acc =
     (case processEntries recurse e opts cp xs acc of
        Some (Inr cs) \<Rightarrow> processEntries recurse e opts cp ys cs
      | other \<Rightarrow> other)"
  by (induction xs arbitrary: acc) (auto simp: Let_def split: sum.splits option.splits)

lemma buildTreeRecursive_child_error:
  assumes "\<not> (MaxDepth opts \<noteq> -1 \<and> d > MaxDepth opts)"
    and "\<not> isExcludedPath e p (ExcludePaths opts)"
    and "fst (nodeTypeAndSize e p info opts) = Directory"
    and "osReadDir e p = Inr (before @ Inr entryInfo # after)"
    and "processEntries (\<lambda>fp ei. buildTreeRecursive fuel e fp ei opts (d + 1)) e opts p before [] = Some (Inr cs)"
    and "IncludeFiles opts \<or> fi_IsDir entryInfo"
    and "buildTreeRecursive fuel e (filepathJoin e p (fi_Name entryInfo)) entryInfo opts (d + 1) = Some (x, Some err)"
  shows "buildTreeRecursive (Suc fuel) e p info opts d = Some (None, Some err)"
proof -
  obtain sz where t: "nodeTypeAndSize e p info opts = (Directory, sz)"
    using assms(3) by (cases "nodeTypeAndSize e p info opts") auto
  have r: "readEntries e p opts Directory = Inr (before @ Inr entryInfo # after)"
    using assms(4) by (simp add: readEntries_def)
  have "processEntries (\<lambda>fp ei. buildTreeRecursive fuel e fp ei opts (d + 1)) e opts p
          (before @ Inr entryInfo # after) [] = Some (Inl err)"
    using assms(5,6,7) by (cases x) (auto simp: processEntries_append Let_def)
  then show ?thesis using assms(1,2) t r by (auto simp: Let_def)
qed

text \<open>An error of a call that the traversal reaches is the result of the whole build.\<close>

lemma reached_error:
  "reached e opts fuel p info d f \<Longrightarrow>
   buildTreeRecursive f e p info opts d = Some (x, Some err) \<Longrightarrow>
   BuildTree fuel e opts = Some (None, Some err)"
proof (induction arbitrary: x rule: reached.induct)
  case (root info)
  then have "x = None" using buildTreeRecursive_not_both by blast
  with root show ?case by (simp add: BuildTree_def)
next
  case (child p info d f earlier entryInfo later cs)
  have "buildTreeRecursive (Suc f) e p info opts d = Some (None, Some err)"
    using child.hyps(2-7) child.prems by (rule buildTreeRecursive_child_error)
  then show ?case by (rule child.IH)
qed

section \<open>An unreadable directory at the depth limit\<close>

text \<open>
  Claim C10. A directory that the traversal reaches at depth exactly \<^verbatim>\<open>MaxDepth\<close> has its
  listing read: when \<^verbatim>\<open>os.ReadDir\<close> fails there, the call returns the directory-read
  error and so does \<^verbatim>\<open>BuildTree\<close>, with no tree, although every call for a child of
  that directory would have returned \<^verbatim>\<open>(nil, nil)\<close> at the depth check.
\<close>

theorem unreadable_directory_at_max_depth:
  assumes "reached e opts fuel p info d (Suc f)"
    and "0 \<le> MaxDepth opts" and "d = MaxDepth opts"
    and "\<not> isExcludedPath e p (ExcludePaths opts)"
    and "fst (nodeTypeAndSize e p info opts) = Directory"
    and "osReadDir e p = Inl err"
  shows "buildTreeRecursive (Suc f) e p info opts d =
           Some (None, Some (ErrReadingDirectory p err)) \<and>
         BuildTree fuel e opts = Some (None, Some (ErrReadingDirectory p err)) \<and>
         buildTreeRecursive (Suc f) e childPath childInfo opts (d + 1) = Some (None, None)"
proof -
  obtain sz where t: "nodeTypeAndSize e p info opts = (Directory, sz)"
    using assms(5) by (cases "nodeTypeAndSize e p info opts") auto
  have r: "readEntries e p opts Directory = Inl (ErrReadingDirectory p err)"
    using assms(6) by (simp add: readEntries_def)
  have a: "buildTreeRecursive (Suc f) e p info opts d = Some (None, Some (ErrReadingDirectory p err))"
    using assms(2,3,4) t r by (auto simp: Let_def)
  have b: "buildTreeRecursive (Suc f) e childPath childInfo opts (d + 1) = Some (None, None)"
    using assms(2,3) by simp
  from reached_error [OF assms(1) a] a b show ?thesis by blast
qed

lemma locked_reached: "reached lockedEnv demoOpts 3 ''/r/sub'' (dirInfo ''sub'') 1 2"
proof -
  have s: "osStat lockedEnv (opt_Path demoOpts) = Inr (dirInfo ''r'')" by code_simp
  have p: "opt_Path demoOpts = ''/r''" by code_simp
  have r0: "reached lockedEnv demoOpts 3 ''/r'' (dirInfo ''r'') 0 (Suc 2)"
    using reached.root [OF s, of 3] by (simp add: p numeral_3_eq_3)
  have h: "\<not> (MaxDepth demoOpts \<noteq> -1 \<and> 0 > MaxDepth demoOpts)"
    "\<not> isExcludedPath lockedEnv ''/r'' (ExcludePaths demoOpts)"
    "fst (nodeTypeAndSize lockedEnv ''/r'' (dirInfo ''r'') demoOpts) = Directory"
    "osReadDir lockedEnv ''/r'' =
       Inr ([Inr (fileInfo ''a.txt'' 10), Inr (fileInfo ''x.go'' 5)] @ Inr (dirInfo ''sub'') #
            [Inr (linkInfo ''link'' 7), Inr (linkInfo ''dlink'' 6)])"
    "processEntries (\<lambda>fp ei. buildTreeRecursive 2 lockedEnv fp ei demoOpts (0 + 1)) lockedEnv demoOpts ''/r''
       [Inr (fileInfo ''a.txt'' 10), Inr (fileInfo ''x.go'' 5)] [] =
     Some (Inr [Node ''a.txt'' ''/r/a.txt'' File 10 [] False, Node ''x.go'' ''/r/x.go'' File 5 [] False])"
    "IncludeFiles demoOpts \<or> fi_IsDir (dirInfo ''sub'')"
    by code_simp+
  have j: "filepathJoin lockedEnv ''/r'' (fi_Name (dirInfo ''sub'')) = ''/r/sub''" by code_simp
  from reached.child [OF r0 h] show ?thesis by (simp add: j)
qed

theorem unreadable_directory_at_max_depth_witness:
  "MaxDepth demoOpts = 1 \<and>
   osReadDir lockedEnv ''/r/sub'' = Inl (LibError ''permission denied'') \<and>
   BuildTree 3 lockedEnv demoOpts =
     Some (None, Some (ErrReadingDirectory ''/r/sub'' (LibError ''permission denied'')))"
proof -
  have h: "0 \<le> MaxDepth demoOpts" "1 = MaxDepth demoOpts"
    "\<not> isExcludedPath lockedEnv ''/r/sub'' (ExcludePaths demoOpts)"
    "fst (nodeTypeAndSize lockedEnv ''/r/sub'' (dirInfo ''sub'') demoOpts) = Directory"
    "osReadDir lockedEnv ''/r/sub'' = Inl (LibError ''permission denied'')"
    by code_simp+
  have r: "reached lockedEnv demoOpts 3 ''/r/sub'' (dirInfo ''sub'') 1 (Suc 1)"
    using locked_reached by (simp add: numeral_2_eq_2)
  from unreadable_directory_at_max_depth [OF r h] h show ?thesis by simp
qed

section \<open>The entry points forward the path patterns as extensions\<close>

lemma allNodes_iff: "allNodes P n \<longleftrightarrow> P n \<and> list_all (allNodes P) (Children n)"
  by (cases n) simp

lemma buildTreeRecursive_filters_hold:
  "buildTreeRecursive fuel e p i opts d = Some (Some n, err) \<Longrightarrow>
     allNodes (\<lambda>n. \<not> isExcludedPath e (Path n) (ExcludePaths opts) \<and>
                   (Type n = File \<longrightarrow> \<not> isExcludedType e (Path n) (ExcludeTypes opts))) n"
proof (induction fuel arbitrary: p i d n err)
  case 0
  then show ?case by simp
next
  case (Suc fuel)
  let ?Q = "\<lambda>n. \<not> isExcludedPath e (Path n) (ExcludePaths opts) \<and>
                   (Type n = File \<longrightarrow> \<not> isExcludedType e (Path n) (ExcludeTypes opts))"
  have kids: "list_all (allNodes ?Q) cs"
    if "processEntries (\<lambda>fp ei. buildTreeRecursive fuel e fp ei opts (d + 1)) e opts cp entries [] = Some (Inr cs)"
    for cp entries cs
    using _ that
  proof (rule processEntries_list_all)
    show "list_all (allNodes ?Q) []" by simp
  next
    fix fp ei c er
    assume "buildTreeRecursive fuel e fp ei opts (d + 1) = Some (Some c, er)"
    then show "allNodes ?Q c" by (rule Suc.IH)
  qed
  show ?case
    using Suc.prems(1)
    by (auto simp: Let_def split: if_splits prod.splits sum.splits option.splits dest!: kids)
qed

lemma BuildTree_filters_hold:
  "BuildTree fuel e opts = Some (Some root, err) \<Longrightarrow>
     allNodes (\<lambda>n. \<not> isExcludedPath e (Path n) (ExcludePaths opts) \<and>
                   (Type n = File \<longrightarrow> \<not> isExcludedType e (Path n) (ExcludeTypes opts))) root"
  by (auto simp: BuildTree_def split: sum.splits dest: buildTreeRecursive_filters_hold)

text \<open>
  Claim C3. \<^verbatim>\<open>dirtree.Generate\<close> and \<^verbatim>\<open>main\<close> build the tree with options whose
  \<^verbatim>\<open>ExcludeTypes\<close> is the list of path patterns of the configuration. The configured
  extension list never reaches the tree builder: the options and the results do not
  depend on it. The path patterns are applied as excluded extensions as well: whatever
  one of the entry points returns is the error of the build, or the formatting of a nil
  root, or the formatting of a tree in which no file node has an extension that equals a
  path pattern in lower case.
\<close>

theorem Generate_ignores_ExcludeTypes:
  "ExcludeTypes (generateBuildOptions cfg) = cfg_ExcludePaths cfg \<and>
   ExcludeTypes (mainBuildOptions cfg) = cfg_ExcludePaths cfg \<and>
   generateBuildOptions (cfg \<lparr> cfg_ExcludeTypes := types \<rparr>) = generateBuildOptions cfg \<and>
   mainBuildOptions (cfg \<lparr> cfg_ExcludeTypes := types \<rparr>) = mainBuildOptions cfg \<and>
   Generate fuel e m (cfg \<lparr> cfg_ExcludeTypes := types \<rparr>) = Generate fuel e m cfg \<and>
   mainRun fuel e m (cfg \<lparr> cfg_ExcludeTypes := types \<rparr>) = mainRun fuel e m cfg \<and>
   Generate fuel e m cfg =
     (case BuildTree fuel e
             \<lparr> opt_Path = cfg_Path cfg, MaxDepth = cfg_MaxDepth cfg,
               ExcludePaths = cfg_ExcludePaths cfg, ExcludeTypes = cfg_ExcludePaths cfg,
               IncludeFiles = cfg_IncludeFiles cfg, FollowLinks = cfg_FollowLinks cfg \<rparr> of
        None \<Rightarrow> None
      | Some (root, Some err) \<Rightarrow> Some (Returned ([], Some err))
      | Some (root, None) \<Rightarrow> Some (Format m root (cfg_Format cfg))) \<and>
   mainRun fuel e m cfg =
     (case BuildTree fuel e
             \<lparr> opt_Path = cfg_Path cfg, MaxDepth = cfg_MaxDepth cfg,
               ExcludePaths = cfg_ExcludePaths cfg, ExcludeTypes = cfg_ExcludePaths cfg,
               IncludeFiles = cfg_IncludeFiles cfg, FollowLinks = cfg_FollowLinks cfg \<rparr> of
        None \<Rightarrow> None
      | Some (root, Some err) \<Rightarrow> Some (Returned ([], Some err))
      | Some (root, None) \<Rightarrow> Some (Format m root (cfg_Format cfg))) \<and>
   (\<forall>out. Generate fuel e m cfg = Some out \<or> mainRun fuel e m cfg = Some out \<longrightarrow>
      (\<exists>err. out = Returned ([], Some err)) \<or>
      out = Format m None (cfg_Format cfg) \<or>
      (\<exists>root. out = Format m (Some root) (cfg_Format cfg) \<and>
         allNodes (\<lambda>n. Type n = File \<longrightarrow>
                      \<not> isExcludedType e (Path n) (cfg_ExcludePaths cfg)) root))"
proof -
  let ?opts = "\<lparr> opt_Path = cfg_Path cfg, MaxDepth = cfg_MaxDepth cfg,
               ExcludePaths = cfg_ExcludePaths cfg, ExcludeTypes = cfg_ExcludePaths cfg,
               IncludeFiles = cfg_IncludeFiles cfg, FollowLinks = cfg_FollowLinks cfg \<rparr>"
  have g: "Generate fuel e m cfg =
     (case BuildTree fuel e ?opts of
        None \<Rightarrow> None
      | Some (root, Some err) \<Rightarrow> Some (Returned ([], Some err))
      | Some (root, None) \<Rightarrow> Some (Format m root (cfg_Format cfg)))"
    by (simp add: Generate_def generateBuildOptions_def)
  have r: "mainRun fuel e m cfg =
     (case BuildTree fuel e ?opts of
        None \<Rightarrow> None
      | Some (root, Some err) \<Rightarrow> Some (Returned ([], Some err))
      | Some (root, None) \<Rightarrow> Some (Format m root (cfg_Format cfg)))"
    by (simp add: mainRun_def mainBuildOptions_def)
  have i: "ExcludeTypes (generateBuildOptions cfg) = cfg_ExcludePaths cfg \<and>
   ExcludeTypes (mainBuildOptions cfg) = cfg_ExcludePaths cfg \<and>
   generateBuildOptions (cfg \<lparr> cfg_ExcludeTypes := types \<rparr>) = generateBuildOptions cfg \<and>
   mainBuildOptions (cfg \<lparr> cfg_ExcludeTypes := types \<rparr>) = mainBuildOptions cfg \<and>
   Generate fuel e m (cfg \<lparr> cfg_ExcludeTypes := types \<rparr>) = Generate fuel e m cfg \<and>
   mainRun fuel e m (cfg \<lparr> cfg_ExcludeTypes := types \<rparr>) = mainRun fuel e m cfg"
    by (simp add: generateBuildOptions_def mainBuildOptions_def Generate_def mainRun_def
           split: option.splits prod.splits)
  have o: "(\<exists>err. out = Returned ([], Some err)) \<or>
      out = Format m None (cfg_Format cfg) \<or>
      (\<exists>root. out = Format m (Some root) (cfg_Format cfg) \<and>
         allNodes (\<lambda>n. Type n = File \<longrightarrow>
                      \<not> isExcludedType e (Path n) (cfg_ExcludePaths cfg)) root)"
    if "Generate fuel e m cfg = Some out \<or> mainRun fuel e m cfg = Some out" for out
  proof -
    from that g r have c: "(case BuildTree fuel e ?opts of
        None \<Rightarrow> None
      | Some (root, Some err) \<Rightarrow> Some (Returned ([], Some err))
      | Some (root, None) \<Rightarrow> Some (Format m root (cfg_Format cfg))) = Some out"
      by auto
    then obtain root err where b: "BuildTree fuel e ?opts = Some (root, err)"
      by (cases "BuildTree fuel e ?opts") auto
    show ?thesis
    proof (cases err)
      case (Some er)
      with c b show ?thesis by auto
    next
      case None
      with c b have out: "out = Format m root (cfg_Format cfg)" by simp
      show ?thesis
      proof (cases root)
        case None
        with out show ?thesis by simp
      next
        case (Some t)
        from BuildTree_filters_hold [OF b [unfolded Some]]
        have "allNodes (\<lambda>n. \<not> isExcludedPath e (Path n) (cfg_ExcludePaths cfg) \<and>
                   (Type n = File \<longrightarrow> \<not> isExcludedType e (Path n) (cfg_ExcludePaths cfg))) t"
          by simp
        then have "allNodes (\<lambda>n. Type n = File \<longrightarrow>
                      \<not> isExcludedType e (Path n) (cfg_ExcludePaths cfg)) t"
        proof (induction t rule: Node.induct)
          case (Node nm p ty sz cs h)
          then show ?case by (auto simp: list_all_iff)
        qed
        with out Some show ?thesis by blast
      qed
    qed
  qed
  from g r i o show ?thesis by blast
qed

lemma upper_build:
  "BuildTree 3 demoEnv (generateBuildOptions upperConfig) = Some (Some upperTree, None) \<and>
   BuildTree 3 demoEnv (mainBuildOptions upperConfig) = Some (Some upperTree, None)"
  by code_simp

lemma upper_generate:
  "Generate 3 demoEnv nullMarshalers upperConfig =
     Some (Format nullMarshalers (Some upperTree) (cfg_Format upperConfig)) \<and>
   mainRun 3 demoEnv nullMarshalers upperConfig =
     Some (Format nullMarshalers (Some upperTree) (cfg_Format upperConfig))"
  by (simp add: Generate_def mainRun_def upper_build)

lemma upper_facts:
  "\<not> isExcludedPath demoEnv ''/r/x.go'' (cfg_ExcludePaths upperConfig) \<and>
   isExcludedType demoEnv ''/r/x.go'' (cfg_ExcludePaths upperConfig) \<and>
   isExcludedType demoEnv ''/r/a.txt'' (cfg_ExcludeTypes upperConfig) \<and>
   map Name (Children upperTree) = [''a.txt'', ''sub'', ''link'', ''dlink'']"
  by code_simp

theorem Generate_ignores_ExcludeTypes_witness:
  "Generate 3 demoEnv nullMarshalers upperConfig =
     Some (Format nullMarshalers (Some upperTree) (cfg_Format upperConfig)) \<and>
   mainRun 3 demoEnv nullMarshalers upperConfig =
     Some (Format nullMarshalers (Some upperTree) (cfg_Format upperConfig)) \<and>
   Generate 3 demoEnv nullMarshalers (upperConfig \<lparr> cfg_ExcludeTypes := [] \<rparr>) =
     Some (Format nullMarshalers (Some upperTree) (cfg_Format upperConfig)) \<and>
   \<not> isExcludedPath demoEnv ''/r/x.go'' (cfg_ExcludePaths upperConfig) \<and>
   isExcludedType demoEnv ''/r/x.go'' (cfg_ExcludePaths upperConfig) \<and>
   isExcludedType demoEnv ''/r/a.txt'' (cfg_ExcludeTypes upperConfig) \<and>
   map Name (Children upperTree) = [''a.txt'', ''sub'', ''link'', ''dlink'']"
proof -
  have ind: "Generate 3 demoEnv nullMarshalers (upperConfig \<lparr> cfg_ExcludeTypes := [] \<rparr>) =
             Generate 3 demoEnv nullMarshalers upperConfig"
    by (rule Generate_ignores_ExcludeTypes [of upperConfig "[]" 3 demoEnv nullMarshalers,
          THEN conjunct2, THEN conjunct2, THEN conjunct2, THEN conjunct2, THEN conjunct1])
  from upper_generate have g: "Generate 3 demoEnv nullMarshalers upperConfig =
     Some (Format nullMarshalers (Some upperTree) (cfg_Format upperConfig))"
    by (rule conjunct1)
  from ind g have "Generate 3 demoEnv nullMarshalers (upperConfig \<lparr> cfg_ExcludeTypes := [] \<rparr>) =
     Some (Format nullMarshalers (Some upperTree) (cfg_Format upperConfig))"
    by (rule trans)
  with upper_generate upper_facts show ?thesis by blast
qed

text \<open>
  With the extension \<^verbatim>\<open>.go\<close> configured, the file \<^verbatim>\<open>x.go\<close> is still in the tree that
  both entry points build.
\<close>

lemma configured_extension_not_applied:
  "cfg_ExcludeTypes goConfig = [''.go''] \<and>
   BuildTree 3 demoEnv (generateBuildOptions goConfig) = Some (Some demoTree, None) \<and>
   BuildTree 3 demoEnv (mainBuildOptions goConfig) = Some (Some demoTree, None) \<and>
   Node ''x.go'' ''/r/x.go'' File 5 [] False \<in> set (Children demoTree)"
  by code_simp

section \<open>Formatting a nil tree\<close>

text \<open>
  Claim C1. \<^verbatim>\<open>Format\<close> with a nil root should return an empty output and no error for
  every selector. For the selector \<^verbatim>\<open>txt\<close> it does not return: \<^verbatim>\<open>formatTXT\<close> reads
  \<^verbatim>\<open>node.Type\<close> of the nil pointer and panics, for every format configuration.
\<close>

theorem Format_nil_TXT_panics:
  "Format m None (cfg \<lparr> fmt_Type := TXT \<rparr>) = Panicked"
  by (simp add: Format_def TXT_def JSON_def YAML_def XML_def stringsRepeat_def)

text \<open>
  The other three selectors hand the nil pointer to the marshalling library
  (\<^verbatim>\<open>createFilteredNode\<close> tests its argument for nil) and return what the library returns.
\<close>

lemma Format_nil_other_selectors:
  "Format m None (cfg \<lparr> fmt_Type := JSON, Indent := 0 \<rparr>) = Returned (jsonMarshal m (filterData None cfg))"
  "Format m None (cfg \<lparr> fmt_Type := YAML \<rparr>) = Returned (yamlMarshal m (filterData None cfg))"
  "Format m None (cfg \<lparr> fmt_Type := XML \<rparr>) = Returned (xmlMarshalIndent m (filterData None cfg) [] ''  '')"
  by (simp_all add: Format_def TXT_def JSON_def YAML_def XML_def formatJSON_def formatYAML_def formatXML_def filterData_def)

text \<open>
  A nil root reaches the formatter from both entry points: the root \<^verbatim>\<open>/r\<close> is excluded
  by the pattern \<^verbatim>\<open>r\<close>, the builder returns \<^verbatim>\<open>(nil, nil)\<close>, and the text format panics.
\<close>

lemma main_nil_root_panics:
  "mainRun 2 demoEnv m txtConfig = Some Panicked \<and> Generate 2 demoEnv m txtConfig = Some Panicked"
  by (simp add: mainRun_def Generate_def)  code_simp

end
